theory Spec2Isabelle
  imports Complex_Main
begin

section \<open>Conventions of the embedding\<close>

text \<open>
  The embedding follows \<^verbatim>\<open>src/fisheye/schemas.py\<close>, \<^verbatim>\<open>src/fisheye/camera.py\<close> and
  \<^verbatim>\<open>src/fisheye/projection.py\<close>.

  \<^item> Python floats and numpy \<^verbatim>\<open>float64\<close> values are the elements of a type \<open>'f\<close>, and every
    floating-point operation the source performs is a field of the record \<open>float_ops\<close>,
    which each function of the embedding takes as its first argument. Nothing is assumed
    of the operations: a theorem stated for every \<open>A :: 'f float_ops\<close> holds whatever
    the hardware and the C library compute, rounding, infinities and \<^verbatim>\<open>nan\<close> included.
    \<open>binary64\<close> below is the instance used for concrete values.
  \<^item> Python integers, and the \<^verbatim>\<open>int64\<close> entries of the pixel grid, are \<^typ>\<open>int\<close>; \<^verbatim>\<open>//\<close>
    is \<open>div\<close> (both round towards minus infinity). Image sizes are far from the
    \<^verbatim>\<open>int64\<close> bounds.
  \<^item> A two-dimensional numpy array is the list of its rows.
  \<^item> An exception is a value of \<open>error\<close>; a function that can raise returns
    \<open>error + 'a\<close>, with \<open>Inl\<close> for the exception. numpy does not raise on a division by
    zero or an argument outside a function's domain: it returns \<^verbatim>\<open>inf\<close> or \<^verbatim>\<open>nan\<close>.
\<close>

section \<open>Floating-point operations\<close>

text \<open>
  \<open>fint\<close> converts an integer to \<^verbatim>\<open>float64\<close> (what Python and numpy do to an integer
  operand of a float operation); \<open>fadd\<close>, \<open>fmul\<close>, \<open>fdiv\<close> are \<^verbatim>\<open>+\<close>, \<^verbatim>\<open>*\<close>, \<^verbatim>\<open>/\<close>; \<open>fne\<close> is
  \<^verbatim>\<open>!=\<close>; \<open>fsqrt\<close>, \<open>fsin\<close>, \<open>ftan\<close>, \<open>farcsin\<close>, \<open>farctan\<close>, \<open>fhypot\<close> and \<open>fdeg2rad\<close> are
  \<^verbatim>\<open>np.sqrt\<close>, \<^verbatim>\<open>np.sin\<close>, \<^verbatim>\<open>np.tan\<close>, \<^verbatim>\<open>np.arcsin\<close>, \<^verbatim>\<open>np.arctan\<close>, \<^verbatim>\<open>np.hypot\<close> and
  \<^verbatim>\<open>np.deg2rad\<close> (which \<^verbatim>\<open>np.radians\<close> equals); \<open>fcast32\<close> is the conversion to \<^verbatim>\<open>float32\<close>
  that storing into an array of that type performs. A \<^verbatim>\<open>float32\<close> value is kept in \<open>'f\<close>.
\<close>

record 'f float_ops =
  fint :: "int \<Rightarrow> 'f"
  fadd :: "'f \<Rightarrow> 'f \<Rightarrow> 'f"
  fmul :: "'f \<Rightarrow> 'f \<Rightarrow> 'f"
  fdiv :: "'f \<Rightarrow> 'f \<Rightarrow> 'f"
  fne :: "'f \<Rightarrow> 'f \<Rightarrow> bool"
  fsqrt :: "'f \<Rightarrow> 'f"
  fsin :: "'f \<Rightarrow> 'f"
  ftan :: "'f \<Rightarrow> 'f"
  farcsin :: "'f \<Rightarrow> 'f"
  farctan :: "'f \<Rightarrow> 'f"
  fhypot :: "'f \<Rightarrow> 'f \<Rightarrow> 'f"
  fdeg2rad :: "'f \<Rightarrow> 'f"
  fcast32 :: "'f \<Rightarrow> 'f"

section \<open>schemas.py\<close>

datatype CameraType = EQUIDISTANT | EQUISOLID | ORTHOGRAPHIC | STEREOGRAPHIC

datatype FisheyeFormat = CIRCULAR | DIAGONAL

text \<open>
  Python does not enforce the annotations \<^verbatim>\<open>camera_type: CameraType\<close> and
  \<^verbatim>\<open>format: FisheyeFormat\<close>: the argument is either a member of the enumeration or some
  other object, which compares unequal to every member. \<open>Foreign t\<close> is such an object,
  \<open>t\<close> being the text its \<^verbatim>\<open>str()\<close> gives.
\<close>

datatype 'a tag = Member 'a | Foreign string

datatype error = ValueError string | FileNotFoundError string

section \<open>camera.py\<close>

text \<open>The four subclasses of \<^verbatim>\<open>FisheyeCamera\<close>; the argument is \<^verbatim>\<open>_focal_length\<close>.\<close>

datatype 'f FisheyeCamera =
    EquidistantCamera 'f
  | EquisolidCamera 'f
  | OrthographicCamera 'f
  | StereographicCamera 'f

fun focal_length :: "'f FisheyeCamera \<Rightarrow> 'f" where
  "focal_length (EquidistantCamera f) = f"
| "focal_length (EquisolidCamera f) = f"
| "focal_length (OrthographicCamera f) = f"
| "focal_length (StereographicCamera f) = f"

text \<open>
  Python evaluates \<^verbatim>\<open>2 * f * np.sin(theta / 2)\<close> from the left: \<^verbatim>\<open>(2 * f) * np.sin(theta / 2)\<close>.
\<close>

fun theta_to_r :: "'f float_ops \<Rightarrow> 'f FisheyeCamera \<Rightarrow> 'f \<Rightarrow> 'f" where
  "theta_to_r A (EquidistantCamera f) theta = fmul A f theta"
| "theta_to_r A (EquisolidCamera f) theta =
     fmul A (fmul A (fint A 2) f) (fsin A (fdiv A theta (fint A 2)))"
| "theta_to_r A (OrthographicCamera f) theta = fmul A f (fsin A theta)"
| "theta_to_r A (StereographicCamera f) theta =
     fmul A (fmul A (fint A 2) f) (ftan A (fdiv A theta (fint A 2)))"


text \<open>The static methods \<^verbatim>\<open>f_from_theta_and_r\<close> of the four classes.\<close>

definition Equidistant_f_from_theta_and_r :: "'f float_ops \<Rightarrow> 'f \<Rightarrow> 'f \<Rightarrow> 'f" where
  "Equidistant_f_from_theta_and_r A theta_max r_max = fdiv A r_max theta_max"

definition Equisolid_f_from_theta_and_r :: "'f float_ops \<Rightarrow> 'f \<Rightarrow> 'f \<Rightarrow> 'f" where
  "Equisolid_f_from_theta_and_r A theta_max r_max =
     fdiv A r_max (fmul A (fint A 2) (fsin A (fdiv A theta_max (fint A 2))))"

definition Orthographic_f_from_theta_and_r :: "'f float_ops \<Rightarrow> 'f \<Rightarrow> 'f \<Rightarrow> 'f" where
  "Orthographic_f_from_theta_and_r A theta_max r_max = fdiv A r_max (fsin A theta_max)"

definition Stereographic_f_from_theta_and_r :: "'f float_ops \<Rightarrow> 'f \<Rightarrow> 'f \<Rightarrow> 'f" where
  "Stereographic_f_from_theta_and_r A theta_max r_max =
     fdiv A r_max (fmul A (fint A 2) (ftan A (fdiv A theta_max (fint A 2))))"

text \<open>\<^verbatim>\<open>FisheyeCameraFactory\<close>: an if/elif chain over the members, \<^verbatim>\<open>ValueError\<close> otherwise.\<close>

fun create_camera :: "CameraType tag \<Rightarrow> 'f \<Rightarrow> error + 'f FisheyeCamera" where
  "create_camera (Member EQUIDISTANT) f = Inr (EquidistantCamera f)"
| "create_camera (Member EQUISOLID) f = Inr (EquisolidCamera f)"
| "create_camera (Member ORTHOGRAPHIC) f = Inr (OrthographicCamera f)"
| "create_camera (Member STEREOGRAPHIC) f = Inr (StereographicCamera f)"
| "create_camera (Foreign t) f = Inl (ValueError (''Unknown camera type: '' @ t))"

fun f_from_theta_and_r :: "'f float_ops \<Rightarrow> CameraType tag \<Rightarrow> 'f \<Rightarrow> 'f \<Rightarrow> error + 'f" where
  "f_from_theta_and_r A (Member EQUIDISTANT) theta r =
     Inr (Equidistant_f_from_theta_and_r A theta r)"
| "f_from_theta_and_r A (Member EQUISOLID) theta r =
     Inr (Equisolid_f_from_theta_and_r A theta r)"
| "f_from_theta_and_r A (Member ORTHOGRAPHIC) theta r =
     Inr (Orthographic_f_from_theta_and_r A theta r)"
| "f_from_theta_and_r A (Member STEREOGRAPHIC) theta r =
     Inr (Stereographic_f_from_theta_and_r A theta r)"
| "f_from_theta_and_r A (Foreign t) theta r = Inl (ValueError (''Unknown camera type: '' @ t))"

section \<open>numpy operations used by projection.py\<close>

definition radians :: "'f float_ops \<Rightarrow> 'f \<Rightarrow> 'f" where
  "radians A d = fdeg2rad A d"

definition deg2rad :: "'f float_ops \<Rightarrow> 'f \<Rightarrow> 'f" where
  "deg2rad A d = fdeg2rad A d"

text \<open>\<^verbatim>\<open>np.hypot\<close> of two integer entries: both are converted to \<^verbatim>\<open>float64\<close> first.\<close>

definition hypot :: "'f float_ops \<Rightarrow> int \<Rightarrow> int \<Rightarrow> 'f" where
  "hypot A x y = fhypot A (fint A x) (fint A y)"

text \<open>\<^verbatim>\<open>np.arange(n)\<close> for an integer \<open>n\<close>: \<open>0, 1, ..., n - 1\<close>.\<close>

definition arange :: "int \<Rightarrow> int list" where
  "arange n = [0..n - 1]"

text \<open>
  \<^verbatim>\<open>np.meshgrid(x, y)\<close> with the default \<^verbatim>\<open>indexing='xy'\<close>: two arrays of \<open>len(y)\<close>
  rows and \<open>len(x)\<close> columns, the first repeating \<open>x\<close> in every row, the second holding
  \<open>y[j]\<close> all along row \<open>j\<close>.
\<close>

definition meshgrid :: "'a list \<Rightarrow> 'a list \<Rightarrow> 'a list list \<times> 'a list list" where
  "meshgrid xs ys = (map (\<lambda>_. xs) ys, map (\<lambda>y. map (\<lambda>_. y) xs) ys)"

text \<open>Element-wise application of a function to one array, and to two arrays of one shape.\<close>

definition ew1 :: "('a \<Rightarrow> 'b) \<Rightarrow> 'a list list \<Rightarrow> 'b list list" where
  "ew1 f a = map (map f) a"

definition ew2 :: "('a \<Rightarrow> 'b \<Rightarrow> 'c) \<Rightarrow> 'a list list \<Rightarrow> 'b list list \<Rightarrow> 'c list list" where
  "ew2 f a b = map2 (map2 f) a b"

text \<open>\<^verbatim>\<open>np.zeros_like(a, dtype=np.float32)\<close>: an array of the shape of \<open>a\<close> holding the
  \<^verbatim>\<open>float32\<close> zero.\<close>

definition zeros_like :: "'f float_ops \<Rightarrow> 'a list list \<Rightarrow> 'f list list" where
  "zeros_like A a = map (map (\<lambda>_. fcast32 A (fint A 0))) a"

text \<open>
  Boolean-mask indexing \<^verbatim>\<open>a[mask]\<close>: the one-dimensional array of the elements of \<open>a\<close>
  at which \<open>mask\<close> is true, in row-major order.
\<close>

fun select_row :: "bool list \<Rightarrow> 'a list \<Rightarrow> 'a list" where
  "select_row (m # ms) (a # as) = (if m then a # select_row ms as else select_row ms as)"
| "select_row _ _ = []"

definition bool_index :: "'a list list \<Rightarrow> bool list list \<Rightarrow> 'a list" where
  "bool_index a msk = concat (map2 select_row msk a)"

text \<open>
  Boolean-mask assignment \<^verbatim>\<open>t[mask] = vs\<close>: the values \<open>vs\<close> are written, in row-major
  order, to the places of \<open>t\<close> at which \<open>mask\<close> is true; the other places keep their
  value. \<open>assign_row\<close> returns the new row and the values not yet used.
\<close>

fun assign_row :: "bool list \<Rightarrow> 'a list \<Rightarrow> 'a list \<Rightarrow> 'a list \<times> 'a list" where
  "assign_row (True # ms) (t # ts) (v # vs) =
     (case assign_row ms ts vs of (r, rest) \<Rightarrow> (v # r, rest))"
| "assign_row (False # ms) (t # ts) vs =
     (case assign_row ms ts vs of (r, rest) \<Rightarrow> (t # r, rest))"
| "assign_row _ ts vs = (ts, vs)"

fun bool_assign :: "'a list list \<Rightarrow> bool list list \<Rightarrow> 'a list \<Rightarrow> 'a list list" where
  "bool_assign (t # ts) (m # ms) vs =
     (case assign_row m t vs of (r, rest) \<Rightarrow> r # bool_assign ts ms rest)"
| "bool_assign ts _ _ = ts"

text \<open>Array shape: \<^verbatim>\<open>a.shape[0]\<close> and \<^verbatim>\<open>a.shape[1]\<close>.\<close>

definition shape0 :: "'a list list \<Rightarrow> int" where
  "shape0 a = int (length a)"

definition shape1 :: "'a list list \<Rightarrow> int" where
  "shape1 a = (case a of [] \<Rightarrow> 0 | r # _ \<Rightarrow> int (length r))"

text \<open>
  The slice \<^verbatim>\<open>a[lo:hi]\<close> for \<open>0 \<le> lo\<close> and \<open>0 \<le> hi\<close>, the only case the source uses
  (\<^verbatim>\<open>offset\<close> and \<^verbatim>\<open>offset + dim\<close> are never negative): numpy clamps both ends to the length.
\<close>

definition slice :: "'a list \<Rightarrow> int \<Rightarrow> int \<Rightarrow> 'a list" where
  "slice a lo hi = take (nat (hi - lo)) (drop (nat lo) a)"

definition slice2 :: "'a list list \<Rightarrow> int \<Rightarrow> int \<Rightarrow> int \<Rightarrow> int \<Rightarrow> 'a list list" where
  "slice2 a rlo rhi clo chi = map (\<lambda>row. slice row clo chi) (slice a rlo rhi)"

section \<open>projection.py\<close>

text \<open>
  What \<^verbatim>\<open>os.path.exists\<close> and \<^verbatim>\<open>cv2.imread\<close> find at a path: nothing, a file that
  \<^verbatim>\<open>imread\<close> cannot decode (it returns \<^verbatim>\<open>None\<close>), or an image, the list of its pixel rows.
\<close>

datatype 'p disk_entry = Missing | Undecodable | Decoded "'p list list"

text \<open>A disk on which every path holds the image \<open>img\<close>.\<close>

definition disk_with :: "'p list list \<Rightarrow> string \<Rightarrow> 'p disk_entry" where
  "disk_with img path = Decoded img"

text \<open>The attributes of a \<^verbatim>\<open>FisheyeToPerspective\<close> object (\<^verbatim>\<open>self.image\<close> is \<open>image_data\<close>).\<close>

record ('f, 'p) FisheyeToPerspective =
  image_file :: string
  fov :: 'f
  rfov :: 'f
  perspective_fov :: 'f
  format :: "FisheyeFormat tag"
  image_data :: "'p list list"
  height :: int
  width :: int
  x_center :: int
  y_center :: int
  camera_type :: "CameraType tag"
  output_shape :: "(int \<times> int) option"

text \<open>
  \<^verbatim>\<open>get_perspective_width\<close> returns the Python integer \<^verbatim>\<open>min(width, height)\<close> or the
  \<^verbatim>\<open>float64\<close> that \<^verbatim>\<open>np.sqrt\<close> gives for the integer \<^verbatim>\<open>width**2 + height**2\<close>. Its two
  uses, \<^verbatim>\<open>width / (2 * np.tan(...))\<close> and \<^verbatim>\<open>dim / 2\<close>, are float divisions, which convert an
  integer operand; the conversion is made here, once.
\<close>

definition get_perspective_width ::
  "'f float_ops \<Rightarrow> ('f, 'p) FisheyeToPerspective \<Rightarrow> error + 'f" where
  "get_perspective_width A s =
     (case format s of
        Member CIRCULAR \<Rightarrow> Inr (fint A (min (width s) (height s)))
      | Member DIAGONAL \<Rightarrow> Inr (fsqrt A (fint A ((width s)\<^sup>2 + (height s)\<^sup>2)))
      | Foreign t \<Rightarrow> Inl (ValueError (''Unknown format '' @ t)))"

definition read_image ::
  "(string \<Rightarrow> 'p disk_entry) \<Rightarrow> ('f, 'p) FisheyeToPerspective \<Rightarrow>
   error + ('f, 'p) FisheyeToPerspective" where
  "read_image fs s =
     (case fs (image_file s) of
        Missing \<Rightarrow> Inl (FileNotFoundError (''Image file '' @ image_file s @ '' not found''))
      | Undecodable \<Rightarrow> Inl (ValueError (''Could not read image file '' @ image_file s))
      | Decoded img \<Rightarrow>
          (let s1 = s\<lparr>image_data := img\<rparr>;
               s2 = s1\<lparr>height := shape0 (image_data s1)\<rparr>;
               s3 = s2\<lparr>width := shape1 (image_data s2)\<rparr>;
               dim' = min (width s3) (height s3);
               offset_x = (width s3 - dim') div 2;
               offset_y = (height s3 - dim') div 2;
               s4 = s3\<lparr>image_data :=
                      slice2 (image_data s3) offset_y (offset_y + dim') offset_x (offset_x + dim')\<rparr>;
               s5 = s4\<lparr>height := shape0 (image_data s4)\<rparr>;
               s6 = s5\<lparr>width := shape1 (image_data s5)\<rparr>;
               s7 = s6\<lparr>x_center := (width s6 - 1) div 2\<rparr>;
               s8 = s7\<lparr>y_center := (height s7 - 1) div 2\<rparr>
           in Inr s8))"

text \<open>
  \<^verbatim>\<open>__init__\<close>. The attributes that \<^verbatim>\<open>read_image\<close> assigns start at \<open>0\<close> and \<open>[]\<close>;
  \<^verbatim>\<open>_camera_type\<close> and \<^verbatim>\<open>_output_shape\<close>, which the source assigns after
  \<^verbatim>\<open>read_image\<close> and which \<^verbatim>\<open>read_image\<close> does not read, are part of the record from the
  start.
\<close>

definition init ::
  "'f float_ops \<Rightarrow> (string \<Rightarrow> 'p disk_entry) \<Rightarrow> string \<Rightarrow> 'f \<Rightarrow> 'f \<Rightarrow> CameraType tag \<Rightarrow>
   FisheyeFormat tag \<Rightarrow> (int \<times> int) option \<Rightarrow> error + ('f, 'p) FisheyeToPerspective" where
  "init A fs image_file_arg fov_arg perspective_fov_arg camera_type_arg format_arg
     output_shape_arg =
     read_image fs
       \<lparr>image_file = image_file_arg, fov = fov_arg, rfov = fdiv A fov_arg (fint A 2),
        perspective_fov = perspective_fov_arg, format = format_arg, image_data = [],
        height = 0, width = 0, x_center = 0, y_center = 0,
        camera_type = camera_type_arg, output_shape = output_shape_arg\<rparr>"

definition focal_length_from_fov :: "'f float_ops \<Rightarrow> 'f \<Rightarrow> 'f \<Rightarrow> 'f" where
  "focal_length_from_fov A fov_arg width_arg =
     fdiv A width_arg (fmul A (fint A 2) (ftan A (fdiv A (radians A fov_arg) (fint A 2))))"

definition generate_meshgrid ::
  "('f, 'p) FisheyeToPerspective \<Rightarrow> int list list \<times> int list list" where
  "generate_meshgrid s =
     (let x = arange (width s);
          y = arange (height s);
          (x, y) = meshgrid x y;
          x = ew1 (\<lambda>v. v - x_center s) x;
          y = ew1 (\<lambda>v. v - y_center s) y
      in (x, y))"

text \<open>
  \<^verbatim>\<open>init_undistort_map\<close>. The right-hand side of \<^verbatim>\<open>map_x[mask] = ...\<close> is a \<^verbatim>\<open>float64\<close>
  array; \<^verbatim>\<open>map_x\<close> is a \<^verbatim>\<open>float32\<close> array, so that the assignment converts each value.
\<close>

definition init_undistort_map ::
  "'f float_ops \<Rightarrow> ('f, 'p) FisheyeToPerspective \<Rightarrow> int list list \<times> int list list \<Rightarrow> 'f \<Rightarrow> 'f \<Rightarrow>
   error + 'f list list \<times> 'f list list" where
  "init_undistort_map A s xy pfocal dim' =
     (case xy of (x, y) \<Rightarrow>
        (let distorted_r = ew2 (hypot A) x y;
             theta = ew1 (\<lambda>d. farctan A (fdiv A d pfocal)) distorted_r
         in case f_from_theta_and_r A (camera_type s) (deg2rad A (rfov s))
                   (fdiv A dim' (fint A 2)) of
              Inl e \<Rightarrow> Inl e
            | Inr focal_fisheye \<Rightarrow>
                (case create_camera (camera_type s) focal_fisheye of
                   Inl e \<Rightarrow> Inl e
                 | Inr camera \<Rightarrow>
                     (let perspective_r = ew1 (theta_to_r A camera) theta;
                          msk = ew1 (\<lambda>d. fne A d (fint A 0)) distorted_r;
                          map_x = zeros_like A x;
                          map_y = zeros_like A y;
                          map_x = bool_assign map_x msk
                            (map (fcast32 A)
                               (map (\<lambda>v. fadd A v (fint A (x_center s)))
                                  (map2 (\<lambda>q v. fmul A q (fint A v))
                                     (map2 (fdiv A) (bool_index perspective_r msk)
                                        (bool_index distorted_r msk))
                                     (bool_index x msk))));
                          map_y = bool_assign map_y msk
                            (map (fcast32 A)
                               (map (\<lambda>v. fadd A v (fint A (y_center s)))
                                  (map2 (\<lambda>q v. fmul A q (fint A v))
                                     (map2 (fdiv A) (bool_index perspective_r msk)
                                        (bool_index distorted_r msk))
                                     (bool_index y msk))))
                      in Inr (map_x, map_y)))))"

text \<open>
  \<^verbatim>\<open>__call__\<close> up to the two maps it hands to \<^verbatim>\<open>cv2.remap\<close>. \<^verbatim>\<open>cv2.resize\<close> is an
  external collaborator and a parameter here.
\<close>

definition undistort_maps ::
  "'f float_ops \<Rightarrow> ('f list list \<Rightarrow> int \<times> int \<Rightarrow> 'f list list) \<Rightarrow>
   ('f, 'p) FisheyeToPerspective \<Rightarrow> error + 'f list list \<times> 'f list list" where
  "undistort_maps A resize s =
     (case get_perspective_width A s of
        Inl e \<Rightarrow> Inl e
      | Inr dim' \<Rightarrow>
          (let perspective_focal_length = focal_length_from_fov A (perspective_fov s) dim';
               xy = generate_meshgrid s
           in case init_undistort_map A s xy perspective_focal_length dim' of
                Inl e \<Rightarrow> Inl e
              | Inr (map_x, map_y) \<Rightarrow>
                  (case output_shape s of
                     None \<Rightarrow> Inr (map_x, map_y)
                   | Some shp \<Rightarrow> Inr (resize map_x shp, resize map_y shp))))"

text \<open>A \<^verbatim>\<open>cv2.resize\<close> that returns the map as it is, for the requests that ask for no
  output shape and so never call it.\<close>

definition identity_resize :: "'f list list \<Rightarrow> int \<times> int \<Rightarrow> 'f list list" where
  "identity_resize m shp = m"

text \<open>
  \<^verbatim>\<open>__call__\<close>: the remapped image, \<^verbatim>\<open>cv2.remap\<close> being a parameter. Writing the
  output file does not change the value returned and is left out.
\<close>

definition call ::
  "'f float_ops \<Rightarrow> ('f list list \<Rightarrow> int \<times> int \<Rightarrow> 'f list list) \<Rightarrow>
   ('p list list \<Rightarrow> 'f list list \<Rightarrow> 'f list list \<Rightarrow> 'p list list) \<Rightarrow>
   ('f, 'p) FisheyeToPerspective \<Rightarrow> error + 'p list list" where
  "call A resize remap s =
     (case undistort_maps A resize s of
        Inl e \<Rightarrow> Inl e
      | Inr (map_x, map_y) \<Rightarrow> Inr (remap (image_data s) map_x map_y))"

section \<open>The binary64 arithmetic\<close>

text \<open>
  IEEE 754 arithmetic rounds the exact result of an operation to the nearest number of
  the format, a tie going to the one with an even significand. \<open>round_to p emin\<close> is this
  rounding for the format with \<open>p\<close> significand bits whose smallest positive number is
  \<open>2 powi emin\<close>: the numbers of the format near \<open>z\<close> are the integer multiples of
  \<open>2 powi ulp_exponent p emin z\<close>.
\<close>

definition round_half_even :: "real \<Rightarrow> int" where
  "round_half_even y =
     (let n = \<lfloor>y\<rfloor>; d = y - of_int n
      in if d < 1 / 2 then n else if 1 / 2 < d then n + 1 else if even n then n else n + 1)"

definition ulp_exponent :: "int \<Rightarrow> int \<Rightarrow> real \<Rightarrow> int" where
  "ulp_exponent p emin z = max (\<lfloor>log 2 \<bar>z\<bar>\<rfloor> - (p - 1)) emin"

definition round_to :: "int \<Rightarrow> int \<Rightarrow> real \<Rightarrow> real" where
  "round_to p emin z =
     (if z = 0 then 0
      else of_int (round_half_even (z / 2 powi ulp_exponent p emin z))
             * 2 powi ulp_exponent p emin z)"

definition rnd64 :: "real \<Rightarrow> real" where
  "rnd64 = round_to 53 (- 1074)"

definition rnd32 :: "real \<Rightarrow> real" where
  "rnd32 = round_to 24 (- 149)"

text \<open>The largest finite \<^verbatim>\<open>float64\<close>.\<close>

definition max64 :: real where
  "max64 = (2 - 2 powi (- 52)) * 2 powi 1023"

text \<open>
  The functions of the C library that numpy calls. Their results are not specified bit
  for bit; \<open>libm\<close> holds, for each, a real function whose value is then rounded (which
  changes nothing if it is a \<^verbatim>\<open>float64\<close> already). \<open>exact_libm\<close> is the library that
  returns the correctly rounded value of the mathematical function.
\<close>

record libm =
  lsin :: "real \<Rightarrow> real"
  ltan :: "real \<Rightarrow> real"
  larcsin :: "real \<Rightarrow> real"
  larctan :: "real \<Rightarrow> real"
  lhypot :: "real \<Rightarrow> real \<Rightarrow> real"

definition exact_libm :: libm where
  "exact_libm =
     \<lparr>lsin = sin, ltan = tan, larcsin = arcsin, larctan = arctan,
      lhypot = (\<lambda>x y. sqrt (x\<^sup>2 + y\<^sup>2))\<rparr>"

text \<open>
  The finite part of the \<^verbatim>\<open>float64\<close> arithmetic, on the real numbers: a \<^verbatim>\<open>float64\<close> is
  the real number it denotes, and an operation rounds its exact result. \<^verbatim>\<open>np.deg2rad\<close>
  multiplies by the constant \<^verbatim>\<open>NPY_PI / 180.0\<close>. The instance follows the hardware where
  the exact result of an operation is at most \<open>max64\<close> in magnitude and a divisor is not
  zero: it has no \<^verbatim>\<open>inf\<close>, no \<^verbatim>\<open>nan\<close> and one zero. It is used below at such operations
  only.
\<close>

definition binary64 :: "libm \<Rightarrow> real float_ops" where
  "binary64 L =
     \<lparr>fint = (\<lambda>n. rnd64 (of_int n)),
      fadd = (\<lambda>x y. rnd64 (x + y)),
      fmul = (\<lambda>x y. rnd64 (x * y)),
      fdiv = (\<lambda>x y. rnd64 (x / y)),
      fne = (\<lambda>x y. x \<noteq> y),
      fsqrt = (\<lambda>x. rnd64 (sqrt x)),
      fsin = (\<lambda>x. rnd64 (lsin L x)),
      ftan = (\<lambda>x. rnd64 (ltan L x)),
      farcsin = (\<lambda>x. rnd64 (larcsin L x)),
      farctan = (\<lambda>x. rnd64 (larctan L x)),
      fhypot = (\<lambda>x y. rnd64 (lhypot L x y)),
      fdeg2rad = (\<lambda>x. rnd64 (x * rnd64 (rnd64 pi / 180))),
      fcast32 = rnd32\<rparr>"

section \<open>Arrays, masks and the pixel grid\<close>

lemma select_row_map: "select_row (map m ps) (map f ps) = map f (filter m ps)"
  by (induction ps) auto

lemma assign_row_map:
  "assign_row (map m ps) (map t ps) (map v (filter m ps) @ rest)
     = (map (\<lambda>p. if m p then v p else t p) ps, rest)"
proof (induction ps)
  case Nil
  then show ?case by simp
next
  case (Cons p ps)
  then show ?case by (cases "m p") simp_all
qed

lemma map2_same: "map2 g (map f1 l) (map f2 l) = map (\<lambda>p. g (f1 p) (f2 p)) l"
  by (induction l) auto

lemma ew1_ew1: "ew1 f (ew1 g p) = ew1 (\<lambda>v. f (g v)) p"
  by (simp add: ew1_def comp_def)

lemma ew2_ew1: "ew2 g (ew1 f1 p) (ew1 f2 p) = ew1 (\<lambda>v. g (f1 v) (f2 v)) p"
  by (induction p) (simp_all add: ew1_def ew2_def map2_same)

lemma zeros_like_ew1: "zeros_like A (ew1 f p) = ew1 (\<lambda>_. fcast32 A (fint A 0)) p"
  by (simp add: zeros_like_def ew1_def comp_def)

lemma bool_index_ew1:
  "bool_index (ew1 f p) (ew1 m p) = map f (concat (map (filter m) p))"
  by (induction p) (simp_all add: bool_index_def ew1_def select_row_map)

lemma bool_assign_ew1:
  "bool_assign (ew1 t p) (ew1 m p) (map v (concat (map (filter m) p)) @ rest)
     = ew1 (\<lambda>q. if m q then v q else t q) p"
proof (induction p arbitrary: rest)
  case Nil
  then show ?case by (simp add: ew1_def)
next
  case (Cons row p)
  have "bool_assign (ew1 t (row # p)) (ew1 m (row # p))
          (map v (concat (map (filter m) (row # p))) @ rest)
      = (case assign_row (map m row) (map t row)
               (map v (filter m row) @ (map v (concat (map (filter m) p)) @ rest)) of
           (r, rest') \<Rightarrow> r # bool_assign (ew1 t p) (ew1 m p) rest')"
    by (simp add: ew1_def)
  also have "\<dots> = map (\<lambda>q. if m q then v q else t q) row
      # bool_assign (ew1 t p) (ew1 m p) (map v (concat (map (filter m) p)) @ rest)"
    by (simp add: assign_row_map)
  also have "\<dots> = ew1 (\<lambda>q. if m q then v q else t q) (row # p)"
    by (simp add: Cons.IH) (simp add: ew1_def)
  finally show ?case .
qed

lemma bool_assign_ew1':
  "bool_assign (ew1 t p) (ew1 m p) (map v (concat (map (filter m) p)))
     = ew1 (\<lambda>q. if m q then v q else t q) p"
  using bool_assign_ew1 [of t p m v "[]"] by simp

lemma bool_index_selected: "list_all m (bool_index a (ew1 m a))"
proof -
  have "ew1 (\<lambda>v. v) a = a" by (simp add: ew1_def)
  then have "bool_index a (ew1 m a) = map (\<lambda>v. v) (concat (map (filter m) a))"
    using bool_index_ew1 [of "\<lambda>v. v" a m] by simp
  then show ?thesis by (auto simp add: list_all_iff)
qed

lemma nth_ew1: "j < length p \<Longrightarrow> i < length (p ! j) \<Longrightarrow> ew1 f p ! j ! i = f (p ! j ! i)"
  by (simp add: ew1_def)

lemma length_ew1: "length (ew1 f p) = length p"
  by (simp add: ew1_def)

lemma length_row_ew1: "j < length p \<Longrightarrow> length (ew1 f p ! j) = length (p ! j)"
  by (simp add: ew1_def)

lemma map_length_ew1: "map length (ew1 f p) = map length p"
  by (simp add: ew1_def)

text \<open>The grid of recentred pixel coordinates.\<close>

lemma generate_meshgrid_pairs:
  "generate_meshgrid s =
     (ew1 fst (map (\<lambda>j. map (\<lambda>i. (i - x_center s, j - y_center s)) (arange (width s)))
                 (arange (height s))),
      ew1 snd (map (\<lambda>j. map (\<lambda>i. (i - x_center s, j - y_center s)) (arange (width s)))
                 (arange (height s))))"
  by (simp add: generate_meshgrid_def meshgrid_def ew1_def Let_def comp_def)

text \<open>
  The value that \<^verbatim>\<open>init_undistort_map\<close> leaves at a pixel of offsets \<open>(x, y)\<close> from the
  centre \<open>c\<close> of its axis, \<open>v\<close> being \<open>x\<close> for \<^verbatim>\<open>map_x\<close> and \<open>y\<close> for \<^verbatim>\<open>map_y\<close>.
\<close>

lemma init_undistort_map_pairs:
  assumes ff: "f_from_theta_and_r A (camera_type s) (deg2rad A (rfov s)) (fdiv A dim' (fint A 2))
      = Inr focal_fisheye"
    and cam: "create_camera (camera_type s) focal_fisheye = Inr camera"
  shows "init_undistort_map A s (ew1 fst p, ew1 snd p) pfocal dim' =
     Inr (ew1 (\<lambda>q. if fne A (hypot A (fst q) (snd q)) (fint A 0)
                    then fcast32 A (fadd A
                           (fmul A
                              (fdiv A
                                 (theta_to_r A camera
                                    (farctan A (fdiv A (hypot A (fst q) (snd q)) pfocal)))
                                 (hypot A (fst q) (snd q)))
                              (fint A (fst q)))
                           (fint A (x_center s)))
                    else fcast32 A (fint A 0)) p,
          ew1 (\<lambda>q. if fne A (hypot A (fst q) (snd q)) (fint A 0)
                    then fcast32 A (fadd A
                           (fmul A
                              (fdiv A
                                 (theta_to_r A camera
                                    (farctan A (fdiv A (hypot A (fst q) (snd q)) pfocal)))
                                 (hypot A (fst q) (snd q)))
                              (fint A (snd q)))
                           (fint A (y_center s)))
                    else fcast32 A (fint A 0)) p)"
proof -
  define H where "H = (\<lambda>q :: int \<times> int. hypot A (fst q) (snd q))"
  define M where "M = (\<lambda>q :: int \<times> int. fne A (H q) (fint A 0))"
  define R where "R = (\<lambda>q :: int \<times> int. theta_to_r A camera (farctan A (fdiv A (H q) pfocal)))"
  define V where "V = (\<lambda>(g :: int \<times> int \<Rightarrow> int) c q.
     fcast32 A (fadd A (fmul A (fdiv A (R q) (H q)) (fint A (g q))) (fint A c)))"
  define sel where "sel = concat (map (filter M) p)"
  have dr: "ew2 (hypot A) (ew1 fst p) (ew1 snd p) = ew1 H p"
    by (simp add: ew2_ew1 H_def)
  have pr: "ew1 (theta_to_r A camera) (ew1 (\<lambda>d. farctan A (fdiv A d pfocal)) (ew1 H p)) = ew1 R p"
    by (simp add: ew1_ew1 R_def)
  have mk: "ew1 (\<lambda>d. fne A d (fint A 0)) (ew1 H p) = ew1 M p"
    by (simp add: ew1_ew1 M_def)
  have vals: "map (fcast32 A)
          (map (\<lambda>v. fadd A v (fint A c))
             (map2 (\<lambda>q v. fmul A q (fint A v))
                (map2 (fdiv A) (bool_index (ew1 R p) (ew1 M p)) (bool_index (ew1 H p) (ew1 M p)))
                (bool_index (ew1 g p) (ew1 M p))))
        = map (V g c) sel" for c g
    by (simp add: bool_index_ew1 map2_same sel_def V_def)
  have asg: "bool_assign (zeros_like A (ew1 g p)) (ew1 M p) (map (V g c) sel)
        = ew1 (\<lambda>q. if M q then V g c q else fcast32 A (fint A 0)) p"
    for c and g :: "int \<times> int \<Rightarrow> int"
    unfolding sel_def zeros_like_ew1 by (rule bool_assign_ew1')
  have "init_undistort_map A s (ew1 fst p, ew1 snd p) pfocal dim' =
      Inr (ew1 (\<lambda>q. if M q then V fst (x_center s) q else fcast32 A (fint A 0)) p,
           ew1 (\<lambda>q. if M q then V snd (y_center s) q else fcast32 A (fint A 0)) p)"
    unfolding init_undistort_map_def Let_def prod.case ff cam sum.case dr pr mk vals asg ..
  then show ?thesis
    unfolding V_def M_def R_def H_def prod.case .
qed

lemma length_arange: "length (arange n) = nat n"
  by (simp add: arange_def)

lemma nth_arange: "k < nat n \<Longrightarrow> arange n ! k = int k"
  by (simp add: arange_def)

lemma grid_length:
  "length (map (\<lambda>j. map (\<lambda>i. (i - xc, j - yc)) (arange w)) (arange h)) = nat h"
  by (simp add: length_arange)

lemma grid_row_length:
  "j < nat h \<Longrightarrow> length (map (\<lambda>j. map (\<lambda>i. (i - xc, j - yc)) (arange w)) (arange h) ! j) = nat w"
  by (simp add: length_arange)

lemma grid_nth:
  "j < nat h \<Longrightarrow> i < nat w \<Longrightarrow>
   map (\<lambda>j. map (\<lambda>i. (i - xc, j - yc)) (arange w)) (arange h) ! j ! i = (int i - xc, int j - yc)"
  by (simp add: length_arange nth_arange)

lemma grid_map_length:
  "map length (map (\<lambda>j. map (\<lambda>i. (i - xc, j - yc)) (arange w)) (arange h))
     = replicate (nat h) (nat w)"
  by (simp add: comp_def length_arange map_replicate_const)

lemma generate_meshgrid_nth:
  assumes "generate_meshgrid s = (x, y)" and "j < nat (height s)" and "i < nat (width s)"
  shows "x ! j ! i = int i - x_center s" and "y ! j ! i = int j - y_center s"
    and "ew2 f x y ! j ! i = f (int i - x_center s) (int j - y_center s)"
proof -
  define g where "g = map (\<lambda>j. map (\<lambda>i. (i - x_center s, j - y_center s)) (arange (width s)))
                        (arange (height s))"
  have len: "length g = nat (height s)"
    unfolding g_def by (rule grid_length)
  have row: "length (g ! j) = nat (width s)"
    unfolding g_def using assms(2) by (rule grid_row_length)
  have nth: "g ! j ! i = (int i - x_center s, int j - y_center s)"
    unfolding g_def using assms(2,3) by (rule grid_nth)
  have xy: "x = ew1 fst g" "y = ew1 snd g"
    using assms(1) generate_meshgrid_pairs [of s] by (simp_all add: g_def)
  have at: "ew1 h g ! j ! i = h (g ! j ! i)" for h
    using assms(2,3) by (intro nth_ew1) (simp_all add: len row)
  show "x ! j ! i = int i - x_center s" by (simp add: xy at nth)
  show "y ! j ! i = int j - y_center s" by (simp add: xy at nth)
  show "ew2 f x y ! j ! i = f (int i - x_center s) (int j - y_center s)"
    by (simp add: xy ew2_ew1 at nth)
qed

lemma init_undistort_map_grid:
  assumes ff: "f_from_theta_and_r A (camera_type s) (deg2rad A (rfov s)) (fdiv A dim' (fint A 2))
      = Inr focal_fisheye"
    and cam: "create_camera (camera_type s) focal_fisheye = Inr camera"
  shows "\<exists>map_x map_y.
     init_undistort_map A s (generate_meshgrid s) pfocal dim' = Inr (map_x, map_y)
     \<and> map length map_x = replicate (nat (height s)) (nat (width s))
     \<and> map length map_y = replicate (nat (height s)) (nat (width s))
     \<and> (\<forall>j i. j < nat (height s) \<and> i < nat (width s) \<longrightarrow>
          map_x ! j ! i =
            (if fne A (hypot A (int i - x_center s) (int j - y_center s)) (fint A 0)
             then fcast32 A (fadd A
                    (fmul A
                       (fdiv A
                          (theta_to_r A camera
                             (farctan A
                                (fdiv A (hypot A (int i - x_center s) (int j - y_center s)) pfocal)))
                          (hypot A (int i - x_center s) (int j - y_center s)))
                       (fint A (int i - x_center s)))
                    (fint A (x_center s)))
             else fcast32 A (fint A 0))
        \<and> map_y ! j ! i =
            (if fne A (hypot A (int i - x_center s) (int j - y_center s)) (fint A 0)
             then fcast32 A (fadd A
                    (fmul A
                       (fdiv A
                          (theta_to_r A camera
                             (farctan A
                                (fdiv A (hypot A (int i - x_center s) (int j - y_center s)) pfocal)))
                          (hypot A (int i - x_center s) (int j - y_center s)))
                       (fint A (int j - y_center s)))
                    (fint A (y_center s)))
             else fcast32 A (fint A 0)))"
proof -
  define g where "g = map (\<lambda>j. map (\<lambda>i. (i - x_center s, j - y_center s)) (arange (width s)))
                        (arange (height s))"
  have len: "length g = nat (height s)"
    unfolding g_def by (rule grid_length)
  have row: "length (g ! j) = nat (width s)" if "j < nat (height s)" for j
    unfolding g_def using that by (rule grid_row_length)
  have nth: "g ! j ! i = (int i - x_center s, int j - y_center s)"
    if "j < nat (height s)" "i < nat (width s)" for j i
    unfolding g_def using that by (rule grid_nth)
  have ml: "map length g = replicate (nat (height s)) (nat (width s))"
    unfolding g_def by (rule grid_map_length)
  have mesh: "generate_meshgrid s = (ew1 fst g, ew1 snd g)"
    unfolding g_def by (rule generate_meshgrid_pairs)
  have at: "ew1 f g ! j ! i = f (int i - x_center s, int j - y_center s)"
    if "j < nat (height s)" "i < nat (width s)" for j i and f :: "int \<times> int \<Rightarrow> 'a"
  proof -
    have "ew1 f g ! j ! i = f (g ! j ! i)"
      using that by (intro nth_ew1) (simp_all add: len row)
    then show ?thesis using that by (simp add: nth)
  qed
  show ?thesis
    unfolding mesh init_undistort_map_pairs [OF ff cam]
  proof (intro exI conjI allI impI)
    show "Inr (ew1 X g, ew1 Y g) = Inr (ew1 X g, ew1 Y g)" for X Y :: "int \<times> int \<Rightarrow> 'a" ..
  qed (simp_all only: map_length_ew1 ml at fst_conv snd_conv)
qed

lemma member_camera:
  "\<exists>focal_fisheye camera. f_from_theta_and_r A (Member ct) theta r = Inr focal_fisheye
     \<and> create_camera (Member ct) focal_fisheye = Inr camera"
  by (cases ct) simp_all

section \<open>Reading and cropping the image\<close>

lemma shape1_rect:
  "img \<noteq> [] \<Longrightarrow> \<forall>row\<in>set img. length row = w \<Longrightarrow> shape1 img = int w"
  by (cases img) (simp_all add: shape1_def)

lemma slice_nat: "slice a (int lo) (int lo + int n) = take n (drop lo a)"
  by (simp add: slice_def)

lemma slice2_nat:
  "slice2 a (int rlo) (int rlo + int n) (int clo) (int clo + int m)
     = map (\<lambda>row. take m (drop clo row)) (take n (drop rlo a))"
  by (simp add: slice2_def slice_nat)

lemma centred_offset: "d \<le> n \<Longrightarrow> (int n - int d) div 2 = int ((n - d) div 2)"
  by (simp add: of_nat_diff zdiv_int)

lemma centred_offset_fits: "d \<le> n \<Longrightarrow> (n - d) div 2 + d \<le> (n::nat)"
  by arith

text \<open>The centred square crop of a rectangular image of \<open>length img\<close> rows and \<open>w\<close> columns.\<close>

lemma crop_shape:
  assumes ne: "img \<noteq> []" and rect: "\<forall>row\<in>set img. length row = w"
    and d: "d = min w (length img)"
    and c: "c = map (\<lambda>row. take d (drop ((w - d) div 2) row))
                  (take d (drop ((length img - d) div 2) img))"
  shows "length c = d" and "\<forall>row\<in>set c. length row = d"
    and "shape0 c = int d" and "shape1 c = int d"
    and "\<forall>j<d. \<forall>i<d. c ! j ! i = img ! ((length img - d) div 2 + j) ! ((w - d) div 2 + i)"
proof -
  have dh: "d \<le> length img" and dw: "d \<le> w" using d by simp_all
  have fh: "(length img - d) div 2 + d \<le> length img" using dh by (rule centred_offset_fits)
  have fw: "(w - d) div 2 + d \<le> w" using dw by (rule centred_offset_fits)
  show len: "length c = d" using fh by (simp add: c)
  have inner: "length (take d (drop ((w - d) div 2) row)) = d" if "row \<in> set img" for row
    using that rect fw by simp
  have sub: "set (take d (drop ((length img - d) div 2) img)) \<subseteq> set img"
    by (meson set_take_subset set_drop_subset subset_trans)
  show rows: "\<forall>row\<in>set c. length row = d"
    unfolding c using inner sub by auto
  show "shape0 c = int d" using len by (simp add: shape0_def)
  show "shape1 c = int d"
  proof (cases c)
    case Nil
    then show ?thesis using len by (simp add: shape1_def)
  next
    case (Cons r rs)
    then have "r \<in> set c" by simp
    then have "length r = d" using rows by blast
    then show ?thesis using Cons by (simp add: shape1_def)
  qed
  show "\<forall>j<d. \<forall>i<d. c ! j ! i = img ! ((length img - d) div 2 + j) ! ((w - d) div 2 + i)"
  proof (intro allI impI)
    fix j i assume j: "j < d" and i: "i < d"
    have jj: "(length img - d) div 2 + j < length img" using j fh by linarith
    then have "img ! ((length img - d) div 2 + j) \<in> set img" by simp
    then have lr: "length (img ! ((length img - d) div 2 + j)) = w" using rect by blast
    have ii: "(w - d) div 2 + i < w" using i fw by linarith
    have "c ! j = take d (drop ((w - d) div 2) (img ! ((length img - d) div 2 + j)))"
      using j fh jj by (simp add: c)
    then show "c ! j ! i = img ! ((length img - d) div 2 + j) ! ((w - d) div 2 + i)"
      using i ii lr by simp
  qed
qed

lemma read_image_decoded:
  assumes dec: "fs (image_file s) = Decoded img"
    and ne: "img \<noteq> []" and rect: "\<forall>row\<in>set img. length row = w"
    and d: "d = min w (length img)"
    and c: "c = map (\<lambda>row. take d (drop ((w - d) div 2) row))
                  (take d (drop ((length img - d) div 2) img))"
  shows "read_image fs s =
     Inr (s\<lparr>image_data := c, height := int d, width := int d,
            x_center := (int d - 1) div 2, y_center := (int d - 1) div 2\<rparr>)"
proof -
  have dh: "d \<le> length img" and dw: "d \<le> w" using d by simp_all
  have s0: "shape0 img = int (length img)" by (simp add: shape0_def)
  have s1: "shape1 img = int w" using ne rect by (rule shape1_rect)
  have mn: "min (int w) (int (length img)) = int d" using d by simp
  have ox: "(int w - int d) div 2 = int ((w - d) div 2)" using dw by (rule centred_offset)
  have oy: "(int (length img) - int d) div 2 = int ((length img - d) div 2)"
    using dh by (rule centred_offset)
  have crop: "slice2 img (int ((length img - d) div 2)) (int ((length img - d) div 2) + int d)
                (int ((w - d) div 2)) (int ((w - d) div 2) + int d) = c"
    unfolding c by (rule slice2_nat)
  have c0: "shape0 c = int d" and c1: "shape1 c = int d"
    using crop_shape [OF ne rect d c] by blast+
  show ?thesis
    unfolding read_image_def dec disk_entry.case Let_def
    by (simp add: s0 s1 mn ox oy crop c0 c1)
qed

lemma init_decoded:
  assumes dec: "fs file = Decoded img"
    and ne: "img \<noteq> []" and rect: "\<forall>row\<in>set img. length row = w"
    and d: "d = min w (length img)"
    and c: "c = map (\<lambda>row. take d (drop ((w - d) div 2) row))
                  (take d (drop ((length img - d) div 2) img))"
  shows "init A fs file fov_arg pfov_arg ct fmt shp =
     Inr \<lparr>image_file = file, fov = fov_arg, rfov = fdiv A fov_arg (fint A 2),
          perspective_fov = pfov_arg,
          format = fmt, image_data = c, height = int d, width = int d,
          x_center = (int d - 1) div 2, y_center = (int d - 1) div 2,
          camera_type = ct, output_shape = shp\<rparr>"
  unfolding init_def
  by (subst read_image_decoded [where img = img and w = w and d = d and c = c])
     (simp_all add: dec ne rect d c)

lemma init_fields:
  assumes "init A fs file fov_arg pfov_arg ct fmt shp = Inr s"
  shows "image_file s = file" and "fov s = fov_arg" and "rfov s = fdiv A fov_arg (fint A 2)"
    and "perspective_fov s = pfov_arg" and "format s = fmt" and "camera_type s = ct"
    and "output_shape s = shp"
  using assms
  by (auto simp add: init_def read_image_def Let_def split: disk_entry.splits)

section \<open>The maps that \<^verbatim>\<open>__call__\<close> builds\<close>

lemma case_sum_pair_id:
  "(case x of Inl e \<Rightarrow> Inl e | Inr (a, b) \<Rightarrow> Inr (a, b)) = x"
  by (cases x) auto

lemma member_width:
  "format s = Member fmt \<Longrightarrow> \<exists>dim'. get_perspective_width A s = Inr dim'"
  by (cases fmt) (simp_all add: get_perspective_width_def)

lemma undistort_maps_None:
  assumes "output_shape s = None" and "get_perspective_width A s = Inr dim'"
  shows "undistort_maps A resize s =
     init_undistort_map A s (generate_meshgrid s)
       (focal_length_from_fov A (perspective_fov s) dim') dim'"
  using assms
  by (auto simp add: undistort_maps_def Let_def split: sum.splits prod.splits)

section \<open>Rounding to nearest\<close>

lemma two_powr_powi: "(2::real) powr (of_int k) = 2 powi k"
  by (simp add: powr_int power_int_def field_simps)

lemma floor_log2:
  assumes "0 < x"
  shows "2 powi \<lfloor>log 2 x\<rfloor> \<le> x" and "x < 2 powi (\<lfloor>log 2 x\<rfloor> + 1)"
proof -
  have "2 powr (of_int \<lfloor>log 2 x\<rfloor>) \<le> x \<and> x < 2 powr (of_int (\<lfloor>log 2 x\<rfloor> + 1))"
    using floor_log_eq_powr_iff [of x 2 "\<lfloor>log 2 x\<rfloor>"] assms by simp
  then show "2 powi \<lfloor>log 2 x\<rfloor> \<le> x" and "x < 2 powi (\<lfloor>log 2 x\<rfloor> + 1)"
    unfolding two_powr_powi by simp_all
qed

lemma floor_log2_eq:
  assumes "2 powi k \<le> x" and "x < 2 powi (k + 1)"
  shows "\<lfloor>log 2 x\<rfloor> = k"
proof -
  have "0 < (2::real) powi k" by simp
  then have "0 < x" using assms by linarith
  then show ?thesis
    using floor_log_eq_powr_iff [of x 2 k] assms unfolding two_powr_powi [symmetric] by simp
qed

lemma two_powi_less_imp: "(2::real) powi a < 2 powi b \<Longrightarrow> a < b"
  using power_int_increasing [of b a "2::real"] by (cases "a < b") auto

lemma two_powi_le: "a \<le> b \<Longrightarrow> (2::real) powi a \<le> 2 powi b"
  by (rule power_int_increasing) simp_all

lemma two_powi_split: "(2::real) powi (a + b) = 2 powi a * 2 powi b"
  by (simp add: power_int_add)

text \<open>Rounding a real number to an integer.\<close>

lemma round_half_even_cases:
  "round_half_even y = \<lfloor>y\<rfloor> \<or> round_half_even y = \<lfloor>y\<rfloor> + 1"
  by (simp add: round_half_even_def Let_def)

lemma round_half_even_of_int [simp]: "round_half_even (of_int n) = n"
  by (simp add: round_half_even_def)

lemma round_half_even_error: "\<bar>of_int (round_half_even y) - y\<bar> \<le> 1 / 2"
proof -
  have "of_int \<lfloor>y\<rfloor> \<le> y" "y < of_int \<lfloor>y\<rfloor> + 1" by linarith+
  then show ?thesis
    unfolding round_half_even_def Let_def by (auto split: if_splits)
qed

lemma round_half_even_mono:
  assumes "x \<le> y"
  shows "round_half_even x \<le> round_half_even y"
proof (cases "\<lfloor>x\<rfloor> = \<lfloor>y\<rfloor>")
  case True
  then show ?thesis
    using assms unfolding round_half_even_def Let_def by (auto split: if_splits)
next
  case False
  have "\<lfloor>x\<rfloor> \<le> \<lfloor>y\<rfloor>" using assms by (rule floor_mono)
  then have "\<lfloor>x\<rfloor> + 1 \<le> \<lfloor>y\<rfloor>" using False by simp
  then show ?thesis
    using round_half_even_cases [of x] round_half_even_cases [of y] by linarith
qed

lemma round_half_even_minus: "round_half_even (- y) = - round_half_even y"
proof (cases "of_int \<lfloor>y\<rfloor> = y")
  case True
  then have "round_half_even (- of_int \<lfloor>y\<rfloor>) = - round_half_even (of_int \<lfloor>y\<rfloor>)"
    using round_half_even_of_int [of "- \<lfloor>y\<rfloor>"] by simp
  then show ?thesis using True by simp
next
  case False
  have b: "of_int \<lfloor>y\<rfloor> < y" "y < of_int \<lfloor>y\<rfloor> + 1"
    using False by linarith+
  have f: "\<lfloor>- y\<rfloor> = - \<lfloor>y\<rfloor> - 1"
  proof (rule floor_unique)
    show "of_int (- \<lfloor>y\<rfloor> - 1) \<le> - y" using b by simp linarith
    show "- y < of_int (- \<lfloor>y\<rfloor> - 1) + 1" using b by simp
  qed
  show ?thesis
    unfolding round_half_even_def Let_def f using b by (auto split: if_splits)
qed

lemma round_half_even_ge: "of_int n \<le> y \<Longrightarrow> n \<le> round_half_even y"
  using round_half_even_mono [of "of_int n" y] by simp

lemma round_half_even_le: "y \<le> of_int n \<Longrightarrow> round_half_even y \<le> n"
  using round_half_even_mono [of y "of_int n"] by simp

text \<open>Rounding to \<^verbatim>\<open>float64\<close>.\<close>

lemma rnd64_zero [simp]: "rnd64 0 = 0"
  by (simp add: rnd64_def round_to_def)

lemma rnd64_nonzero:
  "z \<noteq> 0 \<Longrightarrow>
   rnd64 z = of_int (round_half_even (z / 2 powi ulp_exponent 53 (- 1074) z))
               * 2 powi ulp_exponent 53 (- 1074) z"
  by (simp add: rnd64_def round_to_def)

lemma ulp_exponent_ge: "- 1074 \<le> ulp_exponent 53 (- 1074) z"
  by (simp add: ulp_exponent_def)

lemma ulp_exponent_eq:
  assumes "- 1022 \<le> k" and "2 powi k \<le> \<bar>z\<bar>" and "\<bar>z\<bar> < 2 powi (k + 1)"
  shows "ulp_exponent 53 (- 1074) z = k - 52"
  using floor_log2_eq [OF assms(2,3)] assms(1) by (simp add: ulp_exponent_def)

lemma ulp_exponent_normal:
  assumes "2 powi (- 1022) \<le> \<bar>z\<bar>"
  shows "ulp_exponent 53 (- 1074) z = \<lfloor>log 2 \<bar>z\<bar>\<rfloor> - 52"
proof -
  have "0 < (2::real) powi (- 1022)" by simp
  then have p: "0 < \<bar>z\<bar>" using assms by linarith
  have "(2::real) powi (- 1022) < 2 powi (\<lfloor>log 2 \<bar>z\<bar>\<rfloor> + 1)"
    using floor_log2(2) [OF p] assms by linarith
  then have "- 1022 < \<lfloor>log 2 \<bar>z\<bar>\<rfloor> + 1" by (rule two_powi_less_imp)
  then show ?thesis unfolding ulp_exponent_def by linarith
qed

lemma scaled_less:
  assumes "z \<noteq> 0"
  shows "\<bar>z\<bar> / 2 powi ulp_exponent 53 (- 1074) z < 2 ^ 53"
proof -
  have p: "0 < \<bar>z\<bar>" using assms by simp
  have "\<lfloor>log 2 \<bar>z\<bar>\<rfloor> + 1 \<le> ulp_exponent 53 (- 1074) z + 53"
    by (simp add: ulp_exponent_def)
  then have "(2::real) powi (\<lfloor>log 2 \<bar>z\<bar>\<rfloor> + 1) \<le> 2 powi (ulp_exponent 53 (- 1074) z + 53)"
    by (rule two_powi_le)
  then have "\<bar>z\<bar> < 2 powi (ulp_exponent 53 (- 1074) z + 53)"
    using floor_log2(2) [OF p] by linarith
  then have "\<bar>z\<bar> < 2 powi ulp_exponent 53 (- 1074) z * 2 ^ 53"
    by (simp add: two_powi_split)
  then show ?thesis by (simp add: field_simps)
qed

lemma scaled_ge:
  assumes "2 powi (- 1022) \<le> \<bar>z\<bar>"
  shows "2 ^ 52 \<le> \<bar>z\<bar> / 2 powi ulp_exponent 53 (- 1074) z"
proof -
  have "0 < (2::real) powi (- 1022)" by simp
  then have p: "0 < \<bar>z\<bar>" using assms by linarith
  have "(2::real) powi \<lfloor>log 2 \<bar>z\<bar>\<rfloor> = 2 powi (ulp_exponent 53 (- 1074) z + 52)"
    by (simp add: ulp_exponent_normal [OF assms])
  then have "2 powi ulp_exponent 53 (- 1074) z * 2 ^ 52 \<le> \<bar>z\<bar>"
    using floor_log2(1) [OF p] by (simp add: two_powi_split)
  then show ?thesis by (simp add: field_simps)
qed

text \<open>An operation whose exact result is a normal number has a relative error of at most
  \<open>2 powi (- 53)\<close>.\<close>

lemma rnd64_error:
  assumes "2 powi (- 1022) \<le> \<bar>z\<bar>"
  shows "\<bar>rnd64 z - z\<bar> \<le> 2 powi (- 53) * \<bar>z\<bar>"
proof -
  define e where "e = ulp_exponent 53 (- 1074) z"
  define y where "y = z / 2 powi e"
  have "0 < (2::real) powi (- 1022)" by simp
  then have "0 < \<bar>z\<bar>" using assms by linarith
  then have nz: "z \<noteq> 0" by auto
  have pe: "0 < (2::real) powi e" by simp
  have z: "z = y * 2 powi e" by (simp add: y_def)
  have r: "rnd64 z = of_int (round_half_even y) * 2 powi e"
    unfolding y_def e_def using nz by (rule rnd64_nonzero)
  have "rnd64 z - z = (of_int (round_half_even y) - y) * 2 powi e"
    unfolding r by (simp add: left_diff_distrib z [symmetric])
  then have "\<bar>rnd64 z - z\<bar> = \<bar>of_int (round_half_even y) - y\<bar> * 2 powi e"
    by (simp add: abs_mult)
  also have "\<dots> \<le> 1 / 2 * 2 powi e"
    using round_half_even_error [of y] pe by (intro mult_right_mono) simp_all
  also have "\<dots> \<le> 1 / 2 * (\<bar>z\<bar> / 2 ^ 52)"
  proof -
    have "2 ^ 52 \<le> \<bar>z\<bar> / 2 powi e" unfolding e_def using assms by (rule scaled_ge)
    then have "2 powi e * 2 ^ 52 \<le> \<bar>z\<bar>" using pe by (simp add: field_simps)
    then have "2 powi e \<le> \<bar>z\<bar> / 2 ^ 52" by (simp add: field_simps)
    then show ?thesis by simp
  qed
  also have "\<dots> = 2 powi (- 53) * \<bar>z\<bar>" by (simp add: power_int_minus_divide)
  finally show ?thesis .
qed

text \<open>The value \<open>rnd64\<close> gives once the binade of \<open>z\<close> is known.\<close>

lemma rnd64_eval:
  assumes "- 1022 \<le> k" and "2 powi k \<le> \<bar>z\<bar>" and "\<bar>z\<bar> < 2 powi (k + 1)"
  shows "rnd64 z = of_int (round_half_even (z / 2 powi (k - 52))) * 2 powi (k - 52)"
proof -
  have "0 < (2::real) powi k" by simp
  then have "0 < \<bar>z\<bar>" using assms(2) by linarith
  then have nz: "z \<noteq> 0" by auto
  show ?thesis
    unfolding rnd64_nonzero [OF nz] ulp_exponent_eq [OF assms] ..
qed

text \<open>The results of \<open>rnd64\<close> are the numbers \<open>N * 2 powi E\<close> with \<open>\<bar>N\<bar> \<le> 2 ^ 53\<close> and
  \<open>- 1074 \<le> E\<close>, and \<open>rnd64\<close> leaves these unchanged.\<close>

lemma rnd64_form:
  "\<exists>N E. rnd64 z = of_int N * 2 powi E \<and> \<bar>N\<bar> \<le> 2 ^ 53 \<and> - 1074 \<le> E"
proof (cases "z = 0")
  case True
  then have "rnd64 z = of_int 0 * 2 powi 0" by simp
  then show ?thesis by (intro exI [of _ 0] exI [of _ "0::int"]) simp
next
  case False
  define e where "e = ulp_exponent 53 (- 1074) z"
  define y where "y = z / 2 powi e"
  have pe: "0 < (2::real) powi e" by simp
  have r: "rnd64 z = of_int (round_half_even y) * 2 powi e"
    unfolding y_def e_def using False by (rule rnd64_nonzero)
  have "\<bar>y\<bar> = \<bar>z\<bar> / 2 powi e" by (simp add: y_def)
  then have "\<bar>y\<bar> < 2 ^ 53" using scaled_less [OF False] by (simp add: e_def)
  then have "y \<le> of_int (2 ^ 53)" "of_int (- (2 ^ 53)) \<le> y" by simp_all
  then have "round_half_even y \<le> 2 ^ 53" "- (2 ^ 53) \<le> round_half_even y"
    using round_half_even_le round_half_even_ge by blast+
  then have "\<bar>round_half_even y\<bar> \<le> 2 ^ 53" by simp
  moreover have "- 1074 \<le> e" unfolding e_def by (rule ulp_exponent_ge)
  ultimately show ?thesis using r by blast
qed

lemma rnd64_exact_less:
  assumes N: "\<bar>N\<bar> < 2 ^ 53" and E: "- 1074 \<le> E"
  shows "rnd64 (of_int N * 2 powi E) = of_int N * 2 powi E"
proof (cases "N = 0")
  case True
  then show ?thesis by simp
next
  case False
  define z :: real where "z = of_int N * 2 powi E"
  define e where "e = ulp_exponent 53 (- 1074) z"
  have nz: "z \<noteq> 0" using False by (simp add: z_def)
  then have p: "0 < \<bar>z\<bar>" by simp
  have az: "\<bar>z\<bar> = of_int \<bar>N\<bar> * 2 powi E" by (simp add: z_def abs_mult)
  have "of_int \<bar>N\<bar> < (2::real) ^ 53" using N by (metis of_int_less_numeral_power_cancel_iff)
  then have "\<bar>z\<bar> < 2 ^ 53 * 2 powi E" unfolding az by simp
  then have "\<bar>z\<bar> < 2 powi (E + 53)" by (simp add: two_powi_split)
  then have "(2::real) powi \<lfloor>log 2 \<bar>z\<bar>\<rfloor> < 2 powi (E + 53)"
    using floor_log2(1) [OF p] by linarith
  then have "\<lfloor>log 2 \<bar>z\<bar>\<rfloor> < E + 53" by (rule two_powi_less_imp)
  then have le: "e \<le> E" using E by (simp add: e_def ulp_exponent_def)
  have "(2::real) powi E = 2 powi (e + int (nat (E - e)))" using le by simp
  also have "\<dots> = 2 powi e * 2 ^ nat (E - e)" by (simp only: two_powi_split power_int_of_nat)
  finally have "z / 2 powi e = of_int (N * 2 ^ nat (E - e))"
    by (simp add: z_def)
  then have "round_half_even (z / 2 powi e) = N * 2 ^ nat (E - e)"
    by (simp only: round_half_even_of_int)
  then have "rnd64 z = of_int (N * 2 ^ nat (E - e)) * 2 powi e"
    unfolding rnd64_nonzero [OF nz] e_def by simp
  also have "\<dots> = z"
    using \<open>z / 2 powi e = of_int (N * 2 ^ nat (E - e))\<close> by (simp add: field_simps)
  finally show ?thesis unfolding z_def .
qed

lemma rnd64_exact:
  assumes N: "\<bar>N\<bar> \<le> 2 ^ 53" and E: "- 1074 \<le> E"
  shows "rnd64 (of_int N * 2 powi E) = of_int N * 2 powi E"
proof (cases "\<bar>N\<bar> < 2 ^ 53")
  case True
  then show ?thesis using E by (rule rnd64_exact_less)
next
  case False
  then have "\<bar>N\<bar> = 2 ^ 53" using N by simp
  then consider "N = 2 ^ 53" | "N = - (2 ^ 53)" by linarith
  then show ?thesis
  proof cases
    case 1
    have "of_int N * (2::real) powi E = of_int (2 ^ 52) * 2 powi (E + 1)"
      unfolding 1 by (simp add: two_powi_split)
    moreover have "rnd64 (of_int (2 ^ 52) * 2 powi (E + 1)) = of_int (2 ^ 52) * 2 powi (E + 1)"
      using E by (intro rnd64_exact_less) simp_all
    ultimately show ?thesis by simp
  next
    case 2
    have "of_int N * (2::real) powi E = of_int (- (2 ^ 52)) * 2 powi (E + 1)"
      unfolding 2 by (simp add: two_powi_split)
    moreover have "rnd64 (of_int (- (2 ^ 52)) * 2 powi (E + 1))
        = of_int (- (2 ^ 52)) * 2 powi (E + 1)"
      using E by (intro rnd64_exact_less) simp_all
    ultimately show ?thesis by simp
  qed
qed

lemma rnd64_idem [simp]: "rnd64 (rnd64 z) = rnd64 z"
  using rnd64_form [of z] rnd64_exact by auto

lemma rnd64_double: "rnd64 (2 * rnd64 z) = 2 * rnd64 z"
proof -
  obtain N E where f: "rnd64 z = of_int N * 2 powi E" "\<bar>N\<bar> \<le> 2 ^ 53" "- 1074 \<le> E"
    using rnd64_form by blast
  have "2 * rnd64 z = of_int N * 2 powi (E + 1)"
    unfolding f(1) by (simp add: two_powi_split)
  moreover have "rnd64 (of_int N * 2 powi (E + 1)) = of_int N * 2 powi (E + 1)"
    using f(2,3) by (intro rnd64_exact) simp_all
  ultimately show ?thesis by simp
qed

lemma rnd64_of_int: "\<bar>n\<bar> \<le> 2 ^ 53 \<Longrightarrow> rnd64 (of_int n) = of_int n"
  using rnd64_exact [of n 0] by simp

text \<open>Rounding is odd and monotone.\<close>

lemma ulp_exponent_minus: "ulp_exponent p emin (- z) = ulp_exponent p emin z"
  by (simp add: ulp_exponent_def)

lemma rnd64_minus: "rnd64 (- z) = - rnd64 z"
proof (cases "z = 0")
  case True
  then show ?thesis by simp
next
  case False
  then have "- z \<noteq> 0" by simp
  then show ?thesis
    unfolding rnd64_nonzero [OF False] rnd64_nonzero [OF \<open>- z \<noteq> 0\<close>] ulp_exponent_minus
    by (simp add: round_half_even_minus)
qed

lemma rnd64_nonneg: "0 \<le> z \<Longrightarrow> 0 \<le> rnd64 z"
proof (cases "z = 0")
  case True
  then show ?thesis by simp
next
  case False
  assume "0 \<le> z"
  then have "of_int 0 \<le> z / 2 powi ulp_exponent 53 (- 1074) z" by simp
  then have "0 \<le> round_half_even (z / 2 powi ulp_exponent 53 (- 1074) z)"
    by (rule round_half_even_ge)
  then show ?thesis unfolding rnd64_nonzero [OF False] by simp
qed

lemma rnd64_mono_pos:
  assumes x: "0 < x" and xy: "x \<le> y"
  shows "rnd64 x \<le> rnd64 y"
proof -
  define ex where "ex = ulp_exponent 53 (- 1074) x"
  define ey where "ey = ulp_exponent 53 (- 1074) y"
  have y: "0 < y" using x xy by linarith
  have nx: "x \<noteq> 0" and ny: "y \<noteq> 0" using x y by simp_all
  have rx: "rnd64 x = of_int (round_half_even (x / 2 powi ex)) * 2 powi ex"
    unfolding ex_def using nx by (rule rnd64_nonzero)
  have ry: "rnd64 y = of_int (round_half_even (y / 2 powi ey)) * 2 powi ey"
    unfolding ey_def using ny by (rule rnd64_nonzero)
  have "log 2 x \<le> log 2 y" using x xy by simp
  then have "\<lfloor>log 2 x\<rfloor> \<le> \<lfloor>log 2 y\<rfloor>" by (rule floor_mono)
  then have le: "ex \<le> ey" using x y by (simp add: ex_def ey_def ulp_exponent_def)
  show ?thesis
  proof (cases "ex = ey")
    case True
    have "x / 2 powi ey \<le> y / 2 powi ey" using xy by (simp add: divide_right_mono)
    then have "round_half_even (x / 2 powi ey) \<le> round_half_even (y / 2 powi ey)"
      by (rule round_half_even_mono)
    then have "(of_int (round_half_even (x / 2 powi ey)) :: real)
        \<le> of_int (round_half_even (y / 2 powi ey))" by simp
    then show ?thesis unfolding rx ry True by (intro mult_right_mono) simp_all
  next
    case False
    then have lt: "ex + 1 \<le> ey" using le by simp
    have "- 1074 \<le> ex" unfolding ex_def by (rule ulp_exponent_ge)
    then have "ey = \<lfloor>log 2 \<bar>y\<bar>\<rfloor> - 52" using lt by (simp add: ey_def ulp_exponent_def)
    then have "(2::real) powi (ey + 52) \<le> y" using floor_log2(1) [of y] y by simp
    then have "2 ^ 52 * 2 powi ey \<le> y" by (simp add: two_powi_split mult.commute)
    then have "of_int (2 ^ 52) \<le> y / 2 powi ey" by (simp add: field_simps)
    then have "2 ^ 52 \<le> round_half_even (y / 2 powi ey)" by (rule round_half_even_ge)
    then have "(2::real) ^ 52 \<le> of_int (round_half_even (y / 2 powi ey))"
      by (metis of_int_le_iff of_int_numeral of_int_power)
    then have "2 ^ 52 * 2 powi ey \<le> rnd64 y" unfolding ry by (intro mult_right_mono) simp_all
    then have b: "2 powi (ey + 52) \<le> rnd64 y" by (simp add: two_powi_split mult.commute)
    have "\<bar>x\<bar> / 2 powi ex < 2 ^ 53" unfolding ex_def using nx by (rule scaled_less)
    then have "x / 2 powi ex \<le> of_int (2 ^ 53)" using x by simp
    then have "round_half_even (x / 2 powi ex) \<le> 2 ^ 53" by (rule round_half_even_le)
    then have "of_int (round_half_even (x / 2 powi ex)) \<le> (2::real) ^ 53"
      by (metis of_int_le_iff of_int_numeral of_int_power)
    then have "rnd64 x \<le> 2 ^ 53 * 2 powi ex" unfolding rx by (intro mult_right_mono) simp_all
    then have "rnd64 x \<le> 2 powi (ex + 53)" by (simp add: two_powi_split mult.commute)
    moreover have "(2::real) powi (ex + 53) \<le> 2 powi (ey + 52)"
      using lt by (intro two_powi_le) simp
    ultimately show ?thesis using b by linarith
  qed
qed

lemma rnd64_mono:
  assumes "x \<le> y"
  shows "rnd64 x \<le> rnd64 y"
proof -
  consider "0 < x" | "x \<le> 0" "0 \<le> y" | "y < 0" by linarith
  then show ?thesis
  proof cases
    case 1
    then show ?thesis using assms by (rule rnd64_mono_pos)
  next
    case 2
    have "0 \<le> rnd64 (- x)" using 2(1) by (intro rnd64_nonneg) simp
    then have "rnd64 x \<le> 0" by (simp add: rnd64_minus)
    moreover have "0 \<le> rnd64 y" using 2(2) by (rule rnd64_nonneg)
    ultimately show ?thesis by linarith
  next
    case 3
    have "rnd64 (- y) \<le> rnd64 (- x)" using 3 assms by (intro rnd64_mono_pos) simp_all
    then show ?thesis by (simp add: rnd64_minus)
  qed
qed

section \<open>The camera models in binary64\<close>

lemma binary64_ops:
  "fint (binary64 L) n = rnd64 (of_int n)"
  "fadd (binary64 L) x y = rnd64 (x + y)"
  "fmul (binary64 L) x y = rnd64 (x * y)"
  "fdiv (binary64 L) x y = rnd64 (x / y)"
  "fne (binary64 L) x y \<longleftrightarrow> x \<noteq> y"
  "fsqrt (binary64 L) x = rnd64 (sqrt x)"
  "fsin (binary64 L) x = rnd64 (lsin L x)"
  "ftan (binary64 L) x = rnd64 (ltan L x)"
  "farcsin (binary64 L) x = rnd64 (larcsin L x)"
  "farctan (binary64 L) x = rnd64 (larctan L x)"
  "fhypot (binary64 L) x y = rnd64 (lhypot L x y)"
  "fdeg2rad (binary64 L) x = rnd64 (x * rnd64 (rnd64 pi / 180))"
  "fcast32 (binary64 L) = rnd32"
  by (simp_all add: binary64_def)

lemma rnd64_two [simp]: "rnd64 2 = 2"
  using rnd64_of_int [of 2] by simp

lemma rnd64_one [simp]: "rnd64 1 = 1"
  using rnd64_of_int [of 1] by simp

text \<open>
  A division by \<open>g\<close> followed by a multiplication by \<open>g\<close>, each rounded: the relative
  error is at most \<open>2u + u\<^sup>2\<close> with \<open>u = 2 powi (- 53)\<close>.
\<close>

lemma div_mul_round_trip:
  assumes g: "g \<noteq> 0" and q: "2 powi (- 1022) \<le> \<bar>r / g\<bar>" and r: "2 powi (- 1021) \<le> \<bar>r\<bar>"
  shows "\<bar>rnd64 (rnd64 (r / g) * g) - r\<bar> \<le> (2 powi (- 52) + 2 powi (- 106)) * \<bar>r\<bar>"
proof -
  define u :: real where "u = 2 powi (- 53)"
  define a where "a = rnd64 (r / g)"
  define p where "p = a * g"
  have u: "0 < u" "u \<le> 1 / 2" by (simp_all add: u_def power_int_minus_divide)
  have e1: "\<bar>a - r / g\<bar> \<le> u * \<bar>r / g\<bar>"
    unfolding a_def u_def using q by (rule rnd64_error)
  have "p - r = (a - r / g) * g" using g by (simp add: p_def field_simps)
  then have "\<bar>p - r\<bar> = \<bar>a - r / g\<bar> * \<bar>g\<bar>" by (simp add: abs_mult)
  also have "\<dots> \<le> (u * \<bar>r / g\<bar>) * \<bar>g\<bar>" using e1 by (intro mult_right_mono) simp_all
  also have "\<dots> = u * \<bar>r\<bar>" using g by (simp add: abs_divide)
  finally have d1: "\<bar>p - r\<bar> \<le> u * \<bar>r\<bar>" .
  have lo: "(1 - u) * \<bar>r\<bar> \<le> \<bar>p\<bar>" and hi: "\<bar>p\<bar> \<le> (1 + u) * \<bar>r\<bar>"
    using d1 by (simp_all add: algebra_simps)
  have "(2::real) powi (- 1022) = 1 / 2 * 2 powi (- 1021)"
    by (simp add: power_int_minus_divide)
  also have "\<dots> \<le> (1 - u) * 2 powi (- 1021)" using u by (intro mult_right_mono) simp_all
  also have "\<dots> \<le> (1 - u) * \<bar>r\<bar>" using u r by (intro mult_left_mono) simp_all
  finally have "2 powi (- 1022) \<le> \<bar>p\<bar>" using lo by linarith
  then have "\<bar>rnd64 p - p\<bar> \<le> u * \<bar>p\<bar>" unfolding u_def by (rule rnd64_error)
  also have "\<dots> \<le> u * ((1 + u) * \<bar>r\<bar>)" using hi u by (intro mult_left_mono) simp_all
  finally have d2: "\<bar>rnd64 p - p\<bar> \<le> u * ((1 + u) * \<bar>r\<bar>)" .
  have "\<bar>rnd64 p - r\<bar> \<le> \<bar>rnd64 p - p\<bar> + \<bar>p - r\<bar>" by linarith
  also have "\<dots> \<le> u * ((1 + u) * \<bar>r\<bar>) + u * \<bar>r\<bar>" using d1 d2 by linarith
  also have "\<dots> = (2 * u + u * u) * \<bar>r\<bar>" by (simp add: algebra_simps)
  also have "2 * u + u * u = 2 powi (- 52) + 2 powi (- 106)"
    by (simp add: u_def power_int_minus_divide)
  finally show ?thesis unfolding p_def a_def .
qed


lemma undistort_maps_shape:
  assumes ct: "camera_type s = Member ct" and fmt: "format s = Member fmt"
    and shp: "output_shape s = None"
  shows "\<exists>map_x map_y. undistort_maps A resize s = Inr (map_x, map_y)
     \<and> map length map_x = replicate (nat (height s)) (nat (width s))
     \<and> map length map_y = replicate (nat (height s)) (nat (width s))"
proof -
  obtain dim' where w: "get_perspective_width A s = Inr dim'"
    using member_width [OF fmt] by blast
  obtain focal_fisheye camera
    where ff: "f_from_theta_and_r A (camera_type s) (deg2rad A (rfov s)) (fdiv A dim' (fint A 2))
        = Inr focal_fisheye"
      and cam: "create_camera (camera_type s) focal_fisheye = Inr camera"
    unfolding ct
    using member_camera [of A ct "deg2rad A (rfov s)" "fdiv A dim' (fint A 2)"] by blast
  show ?thesis
    unfolding undistort_maps_None [OF shp w]
    using init_undistort_map_grid [OF ff cam] by blast
qed

lemma undistort_maps_succeeds:
  assumes ct: "camera_type s = Member ct" and fmt: "format s = Member fmt"
  shows "\<exists>maps. undistort_maps A resize s = Inr maps"
proof -
  obtain dim' where w: "get_perspective_width A s = Inr dim'"
    using member_width [OF fmt] by blast
  obtain focal_fisheye camera
    where ff: "f_from_theta_and_r A (camera_type s) (deg2rad A (rfov s)) (fdiv A dim' (fint A 2))
        = Inr focal_fisheye"
      and cam: "create_camera (camera_type s) focal_fisheye = Inr camera"
    unfolding ct
    using member_camera [of A ct "deg2rad A (rfov s)" "fdiv A dim' (fint A 2)"] by blast
  obtain map_x map_y where
    "init_undistort_map A s (generate_meshgrid s)
       (focal_length_from_fov A (perspective_fov s) dim') dim' = Inr (map_x, map_y)"
    using init_undistort_map_grid [OF ff cam] by blast
  then show ?thesis
    by (cases "output_shape s") (auto simp add: undistort_maps_def w Let_def)
qed

section \<open>Unknown tags\<close>

text \<open>
  Claim C8. For an argument that is not a member of \<^verbatim>\<open>CameraType\<close>, both factory
  operations raise \<^verbatim>\<open>ValueError("Unknown camera type: ...")\<close> (the spec's
  UnsupportedCameraType); for a format that is not a member of \<^verbatim>\<open>FisheyeFormat\<close>,
  \<^verbatim>\<open>get_perspective_width\<close> raises \<^verbatim>\<open>ValueError("Unknown format ...")\<close> (the spec's
  UnsupportedFormat). In both cases \<^verbatim>\<open>__call__\<close> ends with that error: no map and no
  image is produced. This holds for every floating-point arithmetic \<open>A\<close>.
\<close>

theorem unknown_tags_raise:
  "create_camera (Foreign t) f = Inl (ValueError (''Unknown camera type: '' @ t))
   \<and> f_from_theta_and_r A (Foreign t) theta r = Inl (ValueError (''Unknown camera type: '' @ t))
   \<and> get_perspective_width A (s\<lparr>format := Foreign u\<rparr>) = Inl (ValueError (''Unknown format '' @ u))
   \<and> undistort_maps A resize (s\<lparr>format := Foreign u\<rparr>)
       = Inl (ValueError (''Unknown format '' @ u))
   \<and> call A resize remap (s\<lparr>format := Foreign u\<rparr>) = Inl (ValueError (''Unknown format '' @ u))
   \<and> undistort_maps A resize (s\<lparr>format := Member fmt, camera_type := Foreign t\<rparr>)
       = Inl (ValueError (''Unknown camera type: '' @ t))
   \<and> call A resize remap (s\<lparr>format := Member fmt, camera_type := Foreign t\<rparr>)
       = Inl (ValueError (''Unknown camera type: '' @ t))"
proof -
  have w: "\<exists>d. get_perspective_width A (s\<lparr>format := Member fmt, camera_type := Foreign t\<rparr>) = Inr d"
    by (cases fmt) (simp_all add: get_perspective_width_def)
  then obtain d
    where d: "get_perspective_width A (s\<lparr>format := Member fmt, camera_type := Foreign t\<rparr>) = Inr d"
    by blast
  have i: "init_undistort_map A (s\<lparr>format := Member fmt, camera_type := Foreign t\<rparr>) xy pf d
      = Inl (ValueError (''Unknown camera type: '' @ t))" for xy pf
    by (cases xy) (simp add: init_undistort_map_def Let_def)
  have m: "undistort_maps A resize (s\<lparr>format := Member fmt, camera_type := Foreign t\<rparr>)
      = Inl (ValueError (''Unknown camera type: '' @ t))"
    by (simp add: undistort_maps_def d i Let_def)
  have g: "get_perspective_width A (s\<lparr>format := Foreign u\<rparr>)
      = Inl (ValueError (''Unknown format '' @ u))"
    by (simp add: get_perspective_width_def)
  have n: "undistort_maps A resize (s\<lparr>format := Foreign u\<rparr>)
      = Inl (ValueError (''Unknown format '' @ u))"
    by (simp add: undistort_maps_def g)
  show ?thesis
    by (simp add: call_def m n g)
qed

section \<open>The square crop\<close>

text \<open>
  Claim C10. \<^verbatim>\<open>read_image\<close> on a decoded image of \<open>length img\<close> rows and \<open>w\<close> columns
  stores the centred square crop of side \<open>d = min w (length img)\<close>, taken at the offsets
  \<open>(w - d) div 2\<close> and \<open>(length img - d) div 2\<close>; the stored height and width are \<open>d\<close> and both
  centres are \<open>(d - 1) div 2\<close>. When no output shape is requested (and both tags are members,
  so that no error is raised), the two maps have \<open>d\<close> rows of \<open>d\<close> entries, in every
  floating-point arithmetic.
\<close>

theorem read_image_square_crop:
  assumes dec: "fs (image_file s) = Decoded img"
    and ne: "img \<noteq> []" and rect: "\<forall>row\<in>set img. length row = w"
  shows "\<exists>s'. read_image fs s = Inr s'
     \<and> (let d = min w (length img); offset_x = (w - d) div 2; offset_y = (length img - d) div 2
        in length (image_data s') = d \<and> (\<forall>row\<in>set (image_data s'). length row = d)
         \<and> (\<forall>j<d. \<forall>i<d. image_data s' ! j ! i = img ! (offset_y + j) ! (offset_x + i))
         \<and> height s' = int d \<and> width s' = int d
         \<and> x_center s' = (int d - 1) div 2 \<and> y_center s' = (int d - 1) div 2
         \<and> (\<forall>A ct fmt resize.
               camera_type s = Member ct \<and> format s = Member fmt \<and> output_shape s = None \<longrightarrow>
               (\<exists>map_x map_y. undistort_maps A resize s' = Inr (map_x, map_y)
                  \<and> map length map_x = replicate d d \<and> map length map_y = replicate d d)))"
proof -
  define d where "d = min w (length img)"
  define c where "c = map (\<lambda>row. take d (drop ((w - d) div 2) row))
                        (take d (drop ((length img - d) div 2) img))"
  define s' where "s' = s\<lparr>image_data := c, height := int d, width := int d,
                          x_center := (int d - 1) div 2, y_center := (int d - 1) div 2\<rparr>"
  have r: "read_image fs s = Inr s'"
    unfolding s'_def using dec ne rect d_def c_def by (rule read_image_decoded)
  have img: "image_data s' = c" by (simp add: s'_def)
  have maps: "\<exists>map_x map_y. undistort_maps A resize s' = Inr (map_x, map_y)
      \<and> map length map_x = replicate d d \<and> map length map_y = replicate d d"
    if "camera_type s = Member ct \<and> format s = Member fmt \<and> output_shape s = None"
    for A ct fmt resize
  proof -
    have "camera_type s' = Member ct" "format s' = Member fmt" "output_shape s' = None"
      using that by (simp_all add: s'_def)
    then show ?thesis
      using undistort_maps_shape [of s' ct fmt A resize] by (simp add: s'_def)
  qed
  have "length (image_data s') = d \<and> (\<forall>row\<in>set (image_data s'). length row = d)
      \<and> (\<forall>j<d. \<forall>i<d. image_data s' ! j ! i
            = img ! ((length img - d) div 2 + j) ! ((w - d) div 2 + i))
      \<and> height s' = int d \<and> width s' = int d
      \<and> x_center s' = (int d - 1) div 2 \<and> y_center s' = (int d - 1) div 2"
    unfolding img using crop_shape [OF ne rect d_def c_def] by (simp add: s'_def)
  then show ?thesis
    unfolding Let_def d_def [symmetric] using r maps by blast
qed

section \<open>The pixels of the map\<close>

lemma zero_of_binary64: "fcast32 (binary64 L) (fint (binary64 L) 0) = 0"
  by (simp add: binary64_def rnd64_def rnd32_def round_to_def)

text \<open>
  Claim C6. At every point of the pixel grid at which \<^verbatim>\<open>distorted_r != 0\<close> is false, both
  maps hold the \<^verbatim>\<open>float32\<close> zero that \<^verbatim>\<open>np.zeros_like\<close> wrote (in \<open>binary64\<close>, the number
  \<open>0\<close>), whatever the camera type, the fields of view, the perspective focal length and
  the perspective width are. No error is raised, and no division by zero takes place for
  such a point: the divisors are the entries of \<^verbatim>\<open>distorted_r[mask]\<close>, and \<^verbatim>\<open>!= 0\<close> holds
  of each of them. This holds for every floating-point arithmetic \<open>A\<close>.
\<close>

theorem zero_radius_maps_to_zero:
  assumes ct: "camera_type s = Member ct"
    and mesh: "generate_meshgrid s = (x, y)"
    and dr: "distorted_r = ew2 (hypot A) x y"
    and j: "j < nat (height s)" and i: "i < nat (width s)"
    and zero: "\<not> fne A (distorted_r ! j ! i) (fint A 0)"
  shows "(\<exists>map_x map_y. init_undistort_map A s (x, y) pfocal dim' = Inr (map_x, map_y)
       \<and> map_x ! j ! i = fcast32 A (fint A 0) \<and> map_y ! j ! i = fcast32 A (fint A 0))
     \<and> list_all (\<lambda>d. fne A d (fint A 0))
         (bool_index distorted_r (ew1 (\<lambda>d. fne A d (fint A 0)) distorted_r))
     \<and> fcast32 (binary64 L) (fint (binary64 L) 0) = 0"
proof -
  obtain focal_fisheye camera
    where ff: "f_from_theta_and_r A (camera_type s) (deg2rad A (rfov s)) (fdiv A dim' (fint A 2))
        = Inr focal_fisheye"
      and cam: "create_camera (camera_type s) focal_fisheye = Inr camera"
    unfolding ct
    using member_camera [of A ct "deg2rad A (rfov s)" "fdiv A dim' (fint A 2)"] by blast
  have h: "\<not> fne A (hypot A (int i - x_center s) (int j - y_center s)) (fint A 0)"
    using generate_meshgrid_nth(3) [OF mesh j i, of "hypot A"] zero dr by simp
  obtain map_x map_y
    where m: "init_undistort_map A s (generate_meshgrid s) pfocal dim' = Inr (map_x, map_y)"
      and at: "\<forall>j i. j < nat (height s) \<and> i < nat (width s) \<longrightarrow>
          map_x ! j ! i =
            (if fne A (hypot A (int i - x_center s) (int j - y_center s)) (fint A 0)
             then fcast32 A (fadd A
                    (fmul A
                       (fdiv A
                          (theta_to_r A camera
                             (farctan A
                                (fdiv A (hypot A (int i - x_center s) (int j - y_center s)) pfocal)))
                          (hypot A (int i - x_center s) (int j - y_center s)))
                       (fint A (int i - x_center s)))
                    (fint A (x_center s)))
             else fcast32 A (fint A 0))
        \<and> map_y ! j ! i =
            (if fne A (hypot A (int i - x_center s) (int j - y_center s)) (fint A 0)
             then fcast32 A (fadd A
                    (fmul A
                       (fdiv A
                          (theta_to_r A camera
                             (farctan A
                                (fdiv A (hypot A (int i - x_center s) (int j - y_center s)) pfocal)))
                          (hypot A (int i - x_center s) (int j - y_center s)))
                       (fint A (int j - y_center s)))
                    (fint A (y_center s)))
             else fcast32 A (fint A 0))"
    using init_undistort_map_grid [OF ff cam, of pfocal] by blast
  have "map_x ! j ! i = fcast32 A (fint A 0) \<and> map_y ! j ! i = fcast32 A (fint A 0)"
    using at [rule_format, of j i] j i h by simp
  then have "\<exists>map_x map_y. init_undistort_map A s (x, y) pfocal dim' = Inr (map_x, map_y)
       \<and> map_x ! j ! i = fcast32 A (fint A 0) \<and> map_y ! j ! i = fcast32 A (fint A 0)"
    using m unfolding mesh by blast
  moreover have "list_all (\<lambda>d. fne A d (fint A 0))
         (bool_index distorted_r (ew1 (\<lambda>d. fne A d (fint A 0)) distorted_r))"
    by (rule bool_index_selected)
  ultimately show ?thesis using zero_of_binary64 by blast
qed


section \<open>The diagonal format\<close>

text \<open>
  Claim C1, as the code has it. \<^verbatim>\<open>get_perspective_width\<close> runs after \<^verbatim>\<open>read_image\<close> has
  replaced \<^verbatim>\<open>_width\<close> and \<^verbatim>\<open>_height\<close> by the sides of the square crop. For a decoded image
  of \<open>length img\<close> rows and \<open>w\<close> columns and the format \<^verbatim>\<open>DIAGONAL\<close>, with
  \<open>d = min w (length img)\<close>, the perspective width is \<^verbatim>\<open>np.sqrt(d**2 + d**2)\<close>, and
  \<^verbatim>\<open>__call__\<close> computes the perspective focal length and the maps from that width. This
  holds for every floating-point arithmetic \<open>A\<close>.
\<close>

theorem diagonal_width_of_cropped_image:
  assumes dec: "fs file = Decoded img"
    and ne: "img \<noteq> []" and rect: "\<forall>row\<in>set img. length row = w"
    and d: "d = int (min w (length img))"
    and dim: "dim' = fsqrt A (fint A (d\<^sup>2 + d\<^sup>2))"
  shows "\<exists>s. init A fs file fov_arg pfov_arg ct (Member DIAGONAL) None = Inr s
     \<and> width s = d \<and> height s = d
     \<and> get_perspective_width A s = Inr dim'
     \<and> undistort_maps A resize s =
         init_undistort_map A s (generate_meshgrid s)
           (focal_length_from_fov A pfov_arg dim') dim'"
proof -
  define c where "c = map (\<lambda>row. take (min w (length img))
                                 (drop ((w - min w (length img)) div 2) row))
                        (take (min w (length img))
                           (drop ((length img - min w (length img)) div 2) img))"
  define s where
    "s = \<lparr>image_file = file, fov = fov_arg, rfov = fdiv A fov_arg (fint A 2),
          perspective_fov = pfov_arg, format = Member DIAGONAL, image_data = c,
          height = int (min w (length img)), width = int (min w (length img)),
          x_center = (int (min w (length img)) - 1) div 2,
          y_center = (int (min w (length img)) - 1) div 2,
          camera_type = ct, output_shape = None\<rparr>"
  have i: "init A fs file fov_arg pfov_arg ct (Member DIAGONAL) None = Inr s"
    unfolding s_def using dec ne rect refl c_def by (rule init_decoded)
  have wh: "width s = d" "height s = d" by (simp_all add: s_def d)
  have g: "get_perspective_width A s = Inr dim'"
    by (simp add: get_perspective_width_def s_def d dim)
  have shp: "output_shape s = None" by (simp add: s_def)
  have pf: "perspective_fov s = pfov_arg" by (simp add: s_def)
  have u: "undistort_maps A resize s =
         init_undistort_map A s (generate_meshgrid s)
           (focal_length_from_fov A pfov_arg dim') dim'"
    using undistort_maps_None [OF shp g, of resize] unfolding pf .
  show ?thesis using i wh g u by blast
qed

section \<open>Parameters outside the domain of a camera model\<close>

text \<open>
  Claim C3, as the code has it. Nothing in the source validates a focal length or a field
  of view: \<^verbatim>\<open>create_camera\<close> stores any focal length, zero and negative ones included,
  and for a decoded image and known tags \<^verbatim>\<open>__init__\<close> and \<^verbatim>\<open>__call__\<close> produce the two
  maps for every field of view and every camera type (so also for \<^verbatim>\<open>ORTHOGRAPHIC\<close> with
  a field of view of 200 degrees). This holds for every floating-point arithmetic \<open>A\<close>.
\<close>

theorem no_validation_of_parameters:
  assumes dec: "fs file = Decoded img"
    and ne: "img \<noteq> []" and rect: "\<forall>row\<in>set img. length row = w"
  shows "(\<exists>camera. create_camera (Member ct) f = Inr camera \<and> focal_length camera = f)
     \<and> (\<exists>s maps. init A fs file fov_arg pfov_arg (Member ct) (Member fmt) shp = Inr s
          \<and> undistort_maps A resize s = Inr maps)"
proof -
  have a: "\<exists>camera. create_camera (Member ct) f = Inr camera \<and> focal_length camera = f"
    by (cases ct) simp_all
  define d where "d = min w (length img)"
  define c where "c = map (\<lambda>row. take d (drop ((w - d) div 2) row))
                        (take d (drop ((length img - d) div 2) img))"
  have "init A fs file fov_arg pfov_arg (Member ct) (Member fmt) shp =
     Inr \<lparr>image_file = file, fov = fov_arg, rfov = fdiv A fov_arg (fint A 2),
          perspective_fov = pfov_arg,
          format = Member fmt, image_data = c, height = int d, width = int d,
          x_center = (int d - 1) div 2, y_center = (int d - 1) div 2,
          camera_type = Member ct, output_shape = shp\<rparr>"
    using dec ne rect d_def c_def by (rule init_decoded)
  then obtain s where i: "init A fs file fov_arg pfov_arg (Member ct) (Member fmt) shp = Inr s"
    by blast
  have "\<exists>maps. undistort_maps A resize s = Inr maps"
    using undistort_maps_succeeds [OF init_fields(6) [OF i] init_fields(5) [OF i]] .
  then show ?thesis using a i by blast
qed

text \<open>
  Claim C4, as the code has it. The focal length is a rounded quotient and the forward
  mapping a rounded product, so that \<^verbatim>\<open>theta_to_r(theta_max)\<close> is \<open>r_max\<close> up to two
  roundings, not exactly. For each of the four camera types, with \<open>g\<close> the divisor of
  the type's \<^verbatim>\<open>f_from_theta_and_r\<close> (the angle itself, \<^verbatim>\<open>np.sin(theta)\<close>,
  \<^verbatim>\<open>2 * np.sin(theta / 2)\<close> or \<^verbatim>\<open>2 * np.tan(theta / 2)\<close>, whatever the C library returns
  for the sine or tangent): if \<open>r_max\<close> and the quotient \<open>r_max / g\<close> are normal
  \<^verbatim>\<open>float64\<close> numbers away from the ends of the range, the radius that \<^verbatim>\<open>theta_to_r\<close>
  gives at \<open>theta_max\<close> differs from \<open>r_max\<close> by at most
  \<open>(2 powi (- 52) + 2 powi (- 106)) * \<bar>r_max\<bar>\<close>.
\<close>

theorem f_from_theta_and_r_reproduces_r_max:
  assumes g: "g = (case ct of
        EQUIDISTANT \<Rightarrow> theta_max
      | EQUISOLID \<Rightarrow>
          fmul (binary64 L) (fint (binary64 L) 2)
            (fsin (binary64 L) (fdiv (binary64 L) theta_max (fint (binary64 L) 2)))
      | ORTHOGRAPHIC \<Rightarrow> fsin (binary64 L) theta_max
      | STEREOGRAPHIC \<Rightarrow>
          fmul (binary64 L) (fint (binary64 L) 2)
            (ftan (binary64 L) (fdiv (binary64 L) theta_max (fint (binary64 L) 2))))"
    and t: "rnd64 theta_max = theta_max" and rf: "rnd64 r_max = r_max"
    and q: "2 powi (- 1022) \<le> \<bar>r_max / g\<bar>" and q': "\<bar>r_max / g\<bar> \<le> 2 powi 1022"
    and r: "2 powi (- 1021) \<le> \<bar>r_max\<bar>" and r': "\<bar>r_max\<bar> \<le> 2 powi 1022"
    and g': "\<bar>g\<bar> \<le> 2 powi 1022"
  shows "\<exists>f camera. f_from_theta_and_r (binary64 L) (Member ct) theta_max r_max = Inr f
     \<and> create_camera (Member ct) f = Inr camera
     \<and> \<bar>theta_to_r (binary64 L) camera theta_max - r_max\<bar>
         \<le> (2 powi (- 52) + 2 powi (- 106)) * \<bar>r_max\<bar>"
proof -
  have "0 < (2::real) powi (- 1022)" by simp
  then have "r_max / g \<noteq> 0" using q by linarith
  then have nz: "g \<noteq> 0" by auto
  have b: "\<bar>rnd64 (rnd64 (r_max / g) * g) - r_max\<bar>
      \<le> (2 powi (- 52) + 2 powi (- 106)) * \<bar>r_max\<bar>"
    using nz q r by (rule div_mul_round_trip)
  show ?thesis
  proof (cases ct)
    case EQUIDISTANT
    then have "g = theta_max" using g by simp
    then show ?thesis
      using b EQUIDISTANT
      by (simp add: Equidistant_f_from_theta_and_r_def binary64_ops)
  next
    case EQUISOLID
    define s where "s = rnd64 (lsin L (rnd64 (theta_max / 2)))"
    have d: "rnd64 (2 * s) = 2 * s" unfolding s_def by (rule rnd64_double)
    have gs: "g = 2 * s" using g EQUISOLID by (simp add: binary64_ops s_def [symmetric] d)
    have f: "f_from_theta_and_r (binary64 L) (Member ct) theta_max r_max = Inr (rnd64 (r_max / g))"
      using EQUISOLID by (simp add: Equisolid_f_from_theta_and_r_def binary64_ops s_def [symmetric] d gs)
    have "theta_to_r (binary64 L) (EquisolidCamera (rnd64 (r_max / g))) theta_max
        = rnd64 (rnd64 (2 * rnd64 (r_max / g)) * s)"
      by (simp add: binary64_ops s_def [symmetric])
    also have "\<dots> = rnd64 (rnd64 (r_max / g) * g)"
      unfolding rnd64_double gs by (simp add: mult.assoc mult.left_commute)
    finally show ?thesis
      using b EQUISOLID f by simp
  next
    case ORTHOGRAPHIC
    then have "g = rnd64 (lsin L theta_max)" using g by (simp add: binary64_ops)
    then show ?thesis
      using b ORTHOGRAPHIC
      by (simp add: Orthographic_f_from_theta_and_r_def binary64_ops)
  next
    case STEREOGRAPHIC
    define s where "s = rnd64 (ltan L (rnd64 (theta_max / 2)))"
    have d: "rnd64 (2 * s) = 2 * s" unfolding s_def by (rule rnd64_double)
    have gs: "g = 2 * s" using g STEREOGRAPHIC by (simp add: binary64_ops s_def [symmetric] d)
    have f: "f_from_theta_and_r (binary64 L) (Member ct) theta_max r_max = Inr (rnd64 (r_max / g))"
      using STEREOGRAPHIC by (simp add: Stereographic_f_from_theta_and_r_def binary64_ops s_def [symmetric] d gs)
    have "theta_to_r (binary64 L) (StereographicCamera (rnd64 (r_max / g))) theta_max
        = rnd64 (rnd64 (2 * rnd64 (r_max / g)) * s)"
      by (simp add: binary64_ops s_def [symmetric])
    also have "\<dots> = rnd64 (rnd64 (r_max / g) * g)"
      unfolding rnd64_double gs by (simp add: mult.assoc mult.left_commute)
    finally show ?thesis
      using b STEREOGRAPHIC f by simp
  qed
qed

lemma rnd64_7_8: "rnd64 (7 / 8) = 7 / 8"
  using rnd64_exact [of 7 "- 3"] by (simp add: power_int_minus_divide)

lemma rnd64_29: "rnd64 29 = 29"
  using rnd64_of_int [of 29] by simp

theorem f_from_theta_and_r_reproduces_r_max_witness:
  "rnd64 (7 / 8) = 7 / 8 \<and> rnd64 29 = 29
   \<and> 2 powi (- 1022) \<le> \<bar>29 / (7 / 8 :: real)\<bar> \<and> \<bar>29 / (7 / 8 :: real)\<bar> \<le> 2 powi 1022
   \<and> 2 powi (- 1021) \<le> \<bar>29 :: real\<bar> \<and> \<bar>29 :: real\<bar> \<le> 2 powi 1022
   \<and> \<bar>7 / 8 :: real\<bar> \<le> 2 powi 1022
   \<and> (\<exists>f camera.
         f_from_theta_and_r (binary64 exact_libm) (Member EQUIDISTANT) (7 / 8) 29 = Inr f
       \<and> create_camera (Member EQUIDISTANT) f = Inr camera
       \<and> \<bar>theta_to_r (binary64 exact_libm) camera (7 / 8) - 29\<bar>
           \<le> (2 powi (- 52) + 2 powi (- 106)) * \<bar>29\<bar>)"
proof -
  have a: "2 powi (- 1022) \<le> \<bar>29 / (7 / 8 :: real)\<bar>" "\<bar>29 / (7 / 8 :: real)\<bar> \<le> 2 powi 1022"
    "2 powi (- 1021) \<le> \<bar>29 :: real\<bar>" "\<bar>29 :: real\<bar> \<le> 2 powi 1022"
    "\<bar>7 / 8 :: real\<bar> \<le> 2 powi 1022"
    by (simp_all add: power_int_minus_divide)
  have g: "(7 / 8 :: real) = (case EQUIDISTANT of
        EQUIDISTANT \<Rightarrow> 7 / 8
      | EQUISOLID \<Rightarrow>
          fmul (binary64 exact_libm) (fint (binary64 exact_libm) 2)
            (fsin (binary64 exact_libm)
               (fdiv (binary64 exact_libm) (7 / 8) (fint (binary64 exact_libm) 2)))
      | ORTHOGRAPHIC \<Rightarrow> fsin (binary64 exact_libm) (7 / 8)
      | STEREOGRAPHIC \<Rightarrow>
          fmul (binary64 exact_libm) (fint (binary64 exact_libm) 2)
            (ftan (binary64 exact_libm)
               (fdiv (binary64 exact_libm) (7 / 8) (fint (binary64 exact_libm) 2))))"
    by simp
  show ?thesis
    using f_from_theta_and_r_reproduces_r_max [OF g rnd64_7_8 rnd64_29 a] rnd64_7_8 rnd64_29 a
    by blast
qed

text \<open>
  The claim as the spec states it fails: for \<^verbatim>\<open>theta_max = 0.875\<close> and \<^verbatim>\<open>r_max = 29.0\<close>
  the equidistant focal length is \<^verbatim>\<open>33.142857142857146\<close> and \<^verbatim>\<open>theta_to_r\<close> returns
  \<^verbatim>\<open>29.000000000000004\<close>.
\<close>

theorem f_from_theta_and_r_not_exact:
  "f_from_theta_and_r (binary64 exact_libm) (Member EQUIDISTANT) (7 / 8) 29
     = Inr (4664442471205157 / 2 ^ 47)
   \<and> create_camera (Member EQUIDISTANT) (4664442471205157 / 2 ^ 47 :: real)
     = Inr (EquidistantCamera (4664442471205157 / 2 ^ 47))
   \<and> theta_to_r (binary64 exact_libm) (EquidistantCamera (4664442471205157 / 2 ^ 47)) (7 / 8)
     = 29 + 1 / 2 ^ 48
   \<and> theta_to_r (binary64 exact_libm) (EquidistantCamera (4664442471205157 / 2 ^ 47)) (7 / 8)
     \<noteq> 29"
proof -
  have a: "rnd64 (232 / 7) = 4664442471205157 / 2 ^ 47"
    using rnd64_eval [of 5 "232 / 7"]
    by (simp add: power_int_minus_divide round_half_even_def Let_def)
  have b: "rnd64 (32651097298436099 / 1125899906842624) = 29 + 1 / 2 ^ 48"
    using rnd64_eval [of 4 "32651097298436099 / 1125899906842624"]
    by (simp add: power_int_minus_divide round_half_even_def Let_def)
  show ?thesis
    by (simp add: Equidistant_f_from_theta_and_r_def binary64_ops a b)
qed














section \<open>Concrete requests\<close>

lemma init_replicate:
  assumes "0 < h"
  shows "\<exists>c. init A (disk_with (replicate h (replicate w p))) file fov_arg pfov_arg ct fmt shp =
     Inr \<lparr>image_file = file, fov = fov_arg, rfov = fdiv A fov_arg (fint A 2),
          perspective_fov = pfov_arg, format = fmt, image_data = c,
          height = int (min w h), width = int (min w h),
          x_center = (int (min w h) - 1) div 2, y_center = (int (min w h) - 1) div 2,
          camera_type = ct, output_shape = shp\<rparr>"
proof -
  define img where "img = replicate h (replicate w p)"
  define d where "d = min w (length img)"
  define c where "c = map (\<lambda>row. take d (drop ((w - d) div 2) row))
                        (take d (drop ((length img - d) div 2) img))"
  have dec: "disk_with img file = Decoded img" by (simp add: disk_with_def)
  have ne: "img \<noteq> []" using assms by (simp add: img_def)
  have rect: "\<forall>row\<in>set img. length row = w" by (simp add: img_def)
  have "init A (disk_with img) file fov_arg pfov_arg ct fmt shp =
     Inr \<lparr>image_file = file, fov = fov_arg, rfov = fdiv A fov_arg (fint A 2),
          perspective_fov = pfov_arg, format = fmt, image_data = c,
          height = int d, width = int d,
          x_center = (int d - 1) div 2, y_center = (int d - 1) div 2,
          camera_type = ct, output_shape = shp\<rparr>"
    using dec ne rect d_def c_def by (rule init_decoded)
  moreover have "d = min w h" by (simp add: d_def img_def)
  ultimately show ?thesis unfolding img_def by blast
qed

theorem read_image_square_crop_witness:
  "\<exists>s'. read_image (disk_with [[1, 2, 3, 4], [5, 6, 7, 8 :: nat]])
          \<lparr>image_file = ''fisheye.png'', fov = 180 :: real, rfov = 90, perspective_fov = 90,
           format = Member CIRCULAR, image_data = [], height = 0, width = 0,
           x_center = 0, y_center = 0, camera_type = Member EQUIDISTANT,
           output_shape = None\<rparr> = Inr s'
     \<and> length (image_data s') = 2
     \<and> image_data s' ! 0 ! 0 = 2 \<and> image_data s' ! 0 ! 1 = 3
     \<and> image_data s' ! 1 ! 0 = 6 \<and> image_data s' ! 1 ! 1 = 7
     \<and> height s' = 2 \<and> width s' = 2 \<and> x_center s' = 0 \<and> y_center s' = 0
     \<and> (\<exists>map_x map_y.
           undistort_maps (binary64 exact_libm) identity_resize s' = Inr (map_x, map_y)
         \<and> map length map_x = [2, 2] \<and> map length map_y = [2, 2])"
proof -
  define s :: "(real, nat) FisheyeToPerspective" where
    "s = \<lparr>image_file = ''fisheye.png'', fov = 180 :: real, rfov = 90, perspective_fov = 90,
           format = Member CIRCULAR, image_data = [], height = 0, width = 0,
           x_center = 0, y_center = 0, camera_type = Member EQUIDISTANT,
           output_shape = None\<rparr>"
  define img :: "nat list list" where "img = [[1, 2, 3, 4], [5, 6, 7, 8]]"
  have dec: "disk_with img (image_file s) = Decoded img" by (simp add: disk_with_def)
  have ne: "img \<noteq> []" by (simp add: img_def)
  have rect: "\<forall>row\<in>set img. length row = 4" by (simp add: img_def)
  have m: "min 4 (length img) = 2" "(4 - 2) div 2 = (1::nat)" "(length img - 2) div 2 = 0"
    by (simp_all add: img_def)
  obtain s' where r: "read_image (disk_with img) s = Inr s'"
    and l: "length (image_data s') = 2"
    and px: "\<forall>j<2. \<forall>i<2. image_data s' ! j ! i = img ! (0 + j) ! (1 + i)"
    and g: "height s' = 2" "width s' = 2" "x_center s' = 0" "y_center s' = 0"
    and u: "\<forall>A ct fmt resize.
               camera_type s = Member ct \<and> format s = Member fmt \<and> output_shape s = None \<longrightarrow>
               (\<exists>map_x map_y. undistort_maps A resize s' = Inr (map_x, map_y)
                  \<and> map length map_x = replicate 2 2 \<and> map length map_y = replicate 2 2)"
    using read_image_square_crop [of "disk_with img" s img 4, OF dec ne rect]
    unfolding Let_def m by auto
  have p: "image_data s' ! 0 ! 0 = 2" "image_data s' ! 0 ! 1 = 3"
    "image_data s' ! 1 ! 0 = 6" "image_data s' ! 1 ! 1 = 7"
    using px by (simp_all add: img_def)
  have "camera_type s = Member EQUIDISTANT \<and> format s = Member CIRCULAR \<and> output_shape s = None"
    by (simp add: s_def)
  then obtain map_x map_y
    where "undistort_maps (binary64 exact_libm) identity_resize s' = Inr (map_x, map_y)"
      "map length map_x = replicate 2 2" "map length map_y = replicate 2 2"
    using u by blast
  then have e: "\<exists>map_x map_y.
           undistort_maps (binary64 exact_libm) identity_resize s' = Inr (map_x, map_y)
         \<and> map length map_x = [2, 2] \<and> map length map_y = [2, 2]"
    by (simp add: numeral_2_eq_2)
  show ?thesis
    using r l p g e unfolding s_def img_def by (intro exI [of _ s'] conjI)
qed

lemma hypot_binary64_zero: "hypot (binary64 exact_libm) 0 0 = 0"
  by (simp add: hypot_def binary64_ops exact_libm_def)


lemma fint_binary64_zero: "fint (binary64 L) 0 = 0"
  by (simp add: binary64_ops)

theorem zero_radius_maps_to_zero_witness:
  "\<exists>map_x map_y.
     init_undistort_map (binary64 exact_libm)
       \<lparr>image_file = ''fisheye.png'', fov = 180, rfov = 90, perspective_fov = 90,
        format = Member CIRCULAR, image_data = replicate 3 (replicate 3 (0::nat)),
        height = 3, width = 3, x_center = 1, y_center = 1,
        camera_type = Member EQUIDISTANT, output_shape = None\<rparr>
       ([[- 1, 0, 1], [- 1, 0, 1], [- 1, 0, 1]], [[- 1, - 1, - 1], [0, 0, 0], [1, 1, 1]])
       (3 / 2) 3 = Inr (map_x, map_y)
     \<and> map_x ! 1 ! 1 = 0 \<and> map_y ! 1 ! 1 = 0"
proof -
  define s :: "(real, nat) FisheyeToPerspective" where
    "s = \<lparr>image_file = ''fisheye.png'', fov = 180, rfov = 90, perspective_fov = 90,
        format = Member CIRCULAR, image_data = replicate 3 (replicate 3 (0::nat)),
        height = 3, width = 3, x_center = 1, y_center = 1,
        camera_type = Member EQUIDISTANT, output_shape = None\<rparr>"
  define x :: "int list list" where "x = [[- 1, 0, 1], [- 1, 0, 1], [- 1, 0, 1]]"
  define y :: "int list list" where "y = [[- 1, - 1, - 1], [0, 0, 0], [1, 1, 1]]"
  have ct: "camera_type s = Member EQUIDISTANT" by (simp add: s_def)
  have mesh: "generate_meshgrid s = (x, y)"
    by (simp add: generate_meshgrid_def arange_def meshgrid_def ew1_def s_def x_def y_def
        upto_rec1)
  have j: "1 < nat (height s)" and i: "1 < nat (width s)" by (simp_all add: s_def)
  have zero: "\<not> fne (binary64 exact_libm) (ew2 (hypot (binary64 exact_libm)) x y ! 1 ! 1)
                 (fint (binary64 exact_libm) 0)"
    by (simp add: ew2_def x_def y_def hypot_binary64_zero binary64_ops)
  have "\<exists>map_x map_y.
       init_undistort_map (binary64 exact_libm) s (x, y) (3 / 2) 3 = Inr (map_x, map_y)
     \<and> map_x ! 1 ! 1 = 0 \<and> map_y ! 1 ! 1 = 0"
    using zero_radius_maps_to_zero [OF ct mesh refl j i zero, of "3 / 2" 3 exact_libm]
    by auto
  then show ?thesis unfolding s_def x_def y_def .
qed




section \<open>The centre of a square image\<close>



lemma rnd64_int_values:
  "rnd64 180 = 180" "rnd64 90 = 90" "rnd64 200 = 200" "rnd64 460800 = 460800"
  "rnd64 678 = 678" "rnd64 679 = 679"
  using rnd64_of_int [of 180] rnd64_of_int [of 90] rnd64_of_int [of 200]
    rnd64_of_int [of 460800] rnd64_of_int [of 678] rnd64_of_int [of 679]
  by simp_all

lemma sqrt_460800: "678 \<le> sqrt 460800" "sqrt 460800 \<le> 679"
  by (rule real_le_rsqrt, simp) (rule real_le_lsqrt, simp_all)

lemma rnd64_sqrt_460800: "678 \<le> rnd64 (sqrt 460800)" "rnd64 (sqrt 460800) \<le> 679"
  using rnd64_mono [OF sqrt_460800(1)] rnd64_mono [OF sqrt_460800(2)]
  by (simp_all add: rnd64_int_values)



theorem diagonal_width_of_cropped_image_witness:
  "\<exists>s. init (binary64 exact_libm) (disk_with (replicate 480 (replicate 640 (0::nat))))
         ''fisheye.png'' 180 90 (Member EQUIDISTANT) (Member DIAGONAL) None = Inr s
     \<and> width s = 480 \<and> height s = 480
     \<and> get_perspective_width (binary64 exact_libm) s = Inr (rnd64 (sqrt 460800))
     \<and> undistort_maps (binary64 exact_libm) identity_resize s =
         init_undistort_map (binary64 exact_libm) s (generate_meshgrid s)
           (focal_length_from_fov (binary64 exact_libm) 90 (rnd64 (sqrt 460800)))
           (rnd64 (sqrt 460800))"
proof -
  define B where "B = binary64 exact_libm"
  define img where "img = replicate 480 (replicate 640 (0::nat))"
  have dec: "disk_with img ''fisheye.png'' = Decoded img" by (simp add: disk_with_def)
  have ne: "img \<noteq> []" by (simp add: img_def)
  have rect: "\<forall>row\<in>set img. length row = 640" by (simp add: img_def)
  have d: "(480::int) = int (min 640 (length img))" by (simp add: img_def)
  have dim: "rnd64 (sqrt 460800) = fsqrt B (fint B (480\<^sup>2 + 480\<^sup>2))"
    by (simp add: B_def binary64_ops rnd64_int_values)
  show ?thesis
    unfolding B_def [symmetric] img_def [symmetric]
    using diagonal_width_of_cropped_image [of "disk_with img" "''fisheye.png''" img 640 480
        "rnd64 (sqrt 460800)" B 180 90 "Member EQUIDISTANT" identity_resize,
        OF dec ne rect d dim]
    by blast
qed

theorem diagonal_width_is_not_800:
  "\<not> isl (init (binary64 exact_libm) (disk_with (replicate 480 (replicate 640 (0::nat))))
            ''fisheye.png'' 180 90 (Member EQUIDISTANT) (Member DIAGONAL) None)
   \<and> get_perspective_width (binary64 exact_libm)
       (projr (init (binary64 exact_libm) (disk_with (replicate 480 (replicate 640 (0::nat))))
            ''fisheye.png'' 180 90 (Member EQUIDISTANT) (Member DIAGONAL) None))
       = Inr (rnd64 (sqrt (480\<^sup>2 + 480\<^sup>2)))
   \<and> 678 \<le> rnd64 (sqrt (480\<^sup>2 + 480\<^sup>2)) \<and> rnd64 (sqrt (480\<^sup>2 + 480\<^sup>2)) \<le> 679
   \<and> get_perspective_width (binary64 exact_libm)
       (projr (init (binary64 exact_libm) (disk_with (replicate 480 (replicate 640 (0::nat))))
            ''fisheye.png'' 180 90 (Member EQUIDISTANT) (Member DIAGONAL) None))
       \<noteq> Inr 800"
proof -
  define B where "B = binary64 exact_libm"
  obtain c :: "nat list list" where
    i: "init B (disk_with (replicate 480 (replicate 640 (0::nat)))) ''fisheye.png''
       180 90 (Member EQUIDISTANT) (Member DIAGONAL) None =
     Inr \<lparr>image_file = ''fisheye.png'', fov = 180, rfov = fdiv B 180 (fint B 2),
          perspective_fov = 90, format = Member DIAGONAL, image_data = c,
          height = int (min 640 480), width = int (min 640 480),
          x_center = (int (min 640 480) - 1) div 2, y_center = (int (min 640 480) - 1) div 2,
          camera_type = Member EQUIDISTANT, output_shape = None\<rparr>"
    using init_replicate [of 480 B 640 "0::nat" "''fisheye.png''" 180 90 "Member EQUIDISTANT"
        "Member DIAGONAL" None]
    by auto
  have q: "(480::real)\<^sup>2 + 480\<^sup>2 = 460800" by simp
  have w: "get_perspective_width B
       \<lparr>image_file = ''fisheye.png'', fov = 180, rfov = fdiv B 180 (fint B 2),
          perspective_fov = 90, format = Member DIAGONAL, image_data = c,
          height = int (min 640 480), width = int (min 640 480),
          x_center = (int (min 640 480) - 1) div 2, y_center = (int (min 640 480) - 1) div 2,
          camera_type = Member EQUIDISTANT, output_shape = None\<rparr>
      = Inr (rnd64 (sqrt 460800))"
    by (simp add: get_perspective_width_def B_def binary64_ops rnd64_int_values)
  show ?thesis
    unfolding B_def [symmetric] i sum.sel w q
    using rnd64_sqrt_460800 by simp
qed

theorem no_validation_of_parameters_witness:
  "(\<exists>camera. create_camera (Member ORTHOGRAPHIC) (- 1 :: real) = Inr camera
       \<and> focal_length camera = - 1)
   \<and> (\<exists>s maps. init (binary64 exact_libm) (disk_with (replicate 4 (replicate 4 (0::nat))))
           ''fisheye.png'' 200 90 (Member ORTHOGRAPHIC) (Member CIRCULAR) None = Inr s
        \<and> undistort_maps (binary64 exact_libm) identity_resize s = Inr maps)"
proof -
  define img where "img = replicate 4 (replicate 4 (0::nat))"
  have dec: "disk_with img ''fisheye.png'' = Decoded img" by (simp add: disk_with_def)
  have ne: "img \<noteq> []" by (simp add: img_def)
  have rect: "\<forall>row\<in>set img. length row = 4" by (simp add: img_def)
  show ?thesis
    unfolding img_def [symmetric]
    using no_validation_of_parameters [of "disk_with img" "''fisheye.png''" img 4 ORTHOGRAPHIC
        "- 1 :: real" "binary64 exact_libm" 200 90 CIRCULAR None identity_resize,
        OF dec ne rect]
    by blast
qed

theorem invalid_parameters_accepted:
  "create_camera (Member ORTHOGRAPHIC) (- 1 :: real) = Inr (OrthographicCamera (- 1))
   \<and> create_camera (Member EQUIDISTANT) (0 :: real) = Inr (EquidistantCamera 0)
   \<and> \<not> isl (init (binary64 exact_libm) (disk_with (replicate 4 (replicate 4 (0::nat))))
           ''fisheye.png'' 200 90 (Member ORTHOGRAPHIC) (Member CIRCULAR) None)
   \<and> \<not> isl (undistort_maps (binary64 exact_libm) identity_resize
         (projr (init (binary64 exact_libm) (disk_with (replicate 4 (replicate 4 (0::nat))))
           ''fisheye.png'' 200 90 (Member ORTHOGRAPHIC) (Member CIRCULAR) None)))"
proof -
  define B where "B = binary64 exact_libm"
  obtain c :: "nat list list" where
    "init B (disk_with (replicate 4 (replicate 4 (0::nat)))) ''fisheye.png''
       200 90 (Member ORTHOGRAPHIC) (Member CIRCULAR) None =
     Inr \<lparr>image_file = ''fisheye.png'', fov = 200, rfov = fdiv B 200 (fint B 2),
          perspective_fov = 90, format = Member CIRCULAR, image_data = c,
          height = int (min 4 4), width = int (min 4 4),
          x_center = (int (min 4 4) - 1) div 2, y_center = (int (min 4 4) - 1) div 2,
          camera_type = Member ORTHOGRAPHIC, output_shape = None\<rparr>"
    using init_replicate [of 4 B 4 "0::nat" "''fisheye.png''" 200 90 "Member ORTHOGRAPHIC"
        "Member CIRCULAR" None]
    by auto
  then obtain s where i: "init B (disk_with (replicate 4 (replicate 4 (0::nat)))) ''fisheye.png''
       200 90 (Member ORTHOGRAPHIC) (Member CIRCULAR) None = Inr s"
    and g: "camera_type s = Member ORTHOGRAPHIC" "format s = Member CIRCULAR"
    by auto
  obtain maps where u: "undistort_maps B identity_resize s = Inr maps"
    using undistort_maps_succeeds [OF g] by blast
  show ?thesis
    unfolding B_def [symmetric] i sum.sel u by simp
qed

end
